theory Spec2Isabelle
  imports Complex_Main
begin

section \<open>Errors\<close>

text \<open>
  Neither program catches an exception: whatever a library call raises (Python) or
  whatever makes an awaited promise reject (TypeScript) leaves the running function at
  once. An error is therefore a value; \<open>Raised msg\<close> stands for an exception that comes
  out of a library or a remote service, the other constructors for the exceptions the
  language itself raises on the expressions of the source.
\<close>

datatype error =
    KeyError string
  | TypeError
  | IndexError
  | ValueError
  | HTTPError nat
  | OSError string
  | Raised string

section \<open>The talking chatbot (gpt-murf.mdx)\<close>

subsection \<open>Data\<close>

text \<open>
  A JavaScript string is modelled as a \<open>string\<close>, each \<open>char\<close> one code unit below
  \<open>0x100\<close>. A value that the TypeScript types call \<open>string\<close> but that can be
  \<open>undefined\<close> at run time (the optional chain \<open>message?.content as string\<close>, the
  untyped \<open>murfAudio.data.audioFile\<close>) is a \<open>string option\<close>, \<open>None\<close> for \<open>undefined\<close>.
\<close>

datatype role = System | User | Assistant

record ChatGPTMessage =
  role :: role
  content :: "string option"

record GenerateSpeechInput =
  voiceId :: string
  format :: string
  text_str :: "string option"

datatype STATUS_TYPES = IDLE | LOADING

record GPTQuery =
  question :: string
  gptResponse :: "string option"
  gptResponseAudioUrl :: "string option"

text \<open>The part of an OpenAI completion and of a Murf response that the component reads.\<close>

record choice =
  message :: "ChatGPTMessage option"

record completion =
  choices :: "choice list"

record murf_response =
  audioFile :: "string option"

text \<open>The body that \<open>generateChatGPTResponse\<close> passes to \<open>openai.createChatCompletion\<close>.\<close>

record chat_request =
  model :: string
  messages :: "ChatGPTMessage list"
  max_tokens :: nat

datatype request =
    ChatCompletion chat_request
  | SpeechGenerateWithKey GenerateSpeechInput

text \<open>
  The two remote services. What a service answers is outside the program, so it is a
  parameter: the answer may depend on the request and on how many requests the session
  has sent before it (so that the same request can be answered differently later).
\<close>

record services =
  openai_createChatCompletion :: "nat \<Rightarrow> chat_request \<Rightarrow> error + completion"
  murf_post_speech :: "nat \<Rightarrow> GenerateSpeechInput \<Rightarrow> error + murf_response"

text \<open>
  The state of one mounted \<open>GPTForm\<close>: its four \<open>useState\<close> cells, whether the
  \<open>audio\<close> element is paused, and the requests sent so far.
\<close>

record GPTForm =
  prompt :: string
  status :: STATUS_TYPES
  gptQueries :: "GPTQuery list"
  currentAudioId :: "nat option"
  audio_paused :: bool
  sent :: "request list"

subsection \<open>The API wrappers\<close>

definition generateChatGPTResponse ::
  "services \<Rightarrow> ChatGPTMessage list \<Rightarrow> GPTForm \<Rightarrow> (error + completion) \<times> GPTForm" where
  "generateChatGPTResponse sv msgs s =
     (let body = \<lparr>model = ''gpt-3.5-turbo'', messages = msgs, max_tokens = 1000\<rparr>
      in (openai_createChatCompletion sv (length (sent s)) body,
          s\<lparr>sent := sent s @ [ChatCompletion body]\<rparr>))"

definition generateSpeechWithKey ::
  "services \<Rightarrow> GenerateSpeechInput \<Rightarrow> GPTForm \<Rightarrow> (error + murf_response) \<times> GPTForm" where
  "generateSpeechWithKey sv data s =
     (murf_post_speech sv (length (sent s)) data,
      s\<lparr>sent := sent s @ [SpeechGenerateWithKey data]\<rparr>)"

subsection \<open>String.prototype.trim\<close>

text \<open>
  \<open>trim\<close> removes white space and line terminators from both ends. Of the code units
  that ECMAScript counts as such, these seven are below \<open>0x100\<close>: TAB, LF, VT, FF, CR,
  SPACE and NO-BREAK SPACE.
\<close>

definition js_whitespace :: "char \<Rightarrow> bool" where
  "js_whitespace c \<longleftrightarrow> of_char c \<in> {9, 10, 11, 12, 13, 32, 160 :: nat}"

definition trim :: "string \<Rightarrow> string" where
  "trim s = rev (dropWhile js_whitespace (rev (dropWhile js_whitespace s)))"

subsection \<open>handlePromptSubmit\<close>

text \<open>
  The loop of lines 268 to 280: every earlier exchange gives a user message and an
  assistant message, in the order of \<open>gptQueries\<close>.
\<close>

fun history_messages :: "GPTQuery list \<Rightarrow> ChatGPTMessage list" where
  "history_messages [] = []"
| "history_messages (query # rest) =
     \<lparr>role = User, content = Some (question query)\<rparr> #
     \<lparr>role = Assistant, content = gptResponse query\<rparr> #
     history_messages rest"

text \<open>
  \<open>gptRes.data.choices[0].message?.content\<close>: reading \<open>message\<close> of the missing
  first element throws a TypeError; a missing \<open>message\<close> gives \<open>undefined\<close>.
\<close>

definition first_choice_content :: "completion \<Rightarrow> error + string option" where
  "first_choice_content res =
     (case choices res of
        [] \<Rightarrow> Inl TypeError
      | c # _ \<Rightarrow> (case message c of None \<Rightarrow> Inr None | Some m \<Rightarrow> Inr (content m)))"

text \<open>
  An \<open>async\<close> function runs in pieces, one up to each \<open>await\<close>. The variables
  \<open>prompt\<close> and \<open>gptQueries\<close> that the later pieces read are the ones of the render in
  which the handler was created, not the current state: they travel with the suspended
  call.
\<close>

record closure =
  c_prompt :: string
  c_gptQueries :: "GPTQuery list"

text \<open>
  Lines 264 to 284: the guard, \<open>setStatus(LOADING)\<close> and the message list. \<open>None\<close> is
  the early \<open>return\<close>; otherwise the handler goes on with the list it has built.
  \<open>!prompt\<close> holds of a string exactly when it is empty.
\<close>

definition submit_begin :: "GPTForm \<Rightarrow> GPTForm \<times> (closure \<times> ChatGPTMessage list) option" where
  "submit_begin s =
     (if prompt s = [] \<or> trim (prompt s) = [] then (s, None)
      else
        let messagesList = history_messages (gptQueries s) @
                             [\<lparr>role = User, content = Some (prompt s)\<rparr>]
        in (s\<lparr>status := LOADING\<rparr>,
            Some (\<lparr>c_prompt = prompt s, c_gptQueries = gptQueries s\<rparr>, messagesList)))"

text \<open>Lines 288 to 292: the payload for Murf, with the fixed voice and format.\<close>

definition murfPayload_of :: "completion \<Rightarrow> error + GenerateSpeechInput" where
  "murfPayload_of gptRes =
     (case first_choice_content gptRes of
        Inl e \<Rightarrow> Inl e
      | Inr txt \<Rightarrow> Inr \<lparr>voiceId = ''en-US-marcus'', format = ''MP3'', text_str = txt\<rparr>)"

text \<open>
  Lines 296 to 307: the new exchange is appended to the captured \<open>gptQueries\<close>, the
  input is cleared and the status goes back to \<open>IDLE\<close>.
\<close>

definition submit_finish ::
  "closure \<Rightarrow> string option \<Rightarrow> murf_response \<Rightarrow> GPTForm \<Rightarrow> GPTForm" where
  "submit_finish cl txt murfAudio s =
     s\<lparr>gptQueries := c_gptQueries cl @
          [\<lparr>question = c_prompt cl, gptResponse = txt,
            gptResponseAudioUrl = audioFile murfAudio\<rparr>],
       prompt := [],
       status := IDLE\<rparr>"

text \<open>
  One call of the handler with nothing else happening in between. \<open>Inl e\<close> is the
  rejection of the promise that the handler returns; the state is then the one the
  handler left behind.
\<close>

definition handlePromptSubmit :: "services \<Rightarrow> GPTForm \<Rightarrow> (error + unit) \<times> GPTForm" where
  "handlePromptSubmit sv s =
     (case submit_begin s of
        (s1, None) \<Rightarrow> (Inr (), s1)
      | (s1, Some (cl, messagesList)) \<Rightarrow>
          (case generateChatGPTResponse sv messagesList s1 of
             (Inl e, s2) \<Rightarrow> (Inl e, s2)
           | (Inr gptRes, s2) \<Rightarrow>
               (case murfPayload_of gptRes of
                  Inl e \<Rightarrow> (Inl e, s2)
                | Inr murfPayload \<Rightarrow>
                    (case generateSpeechWithKey sv murfPayload s2 of
                       (Inl e, s3) \<Rightarrow> (Inl e, s3)
                     | (Inr murfAudio, s3) \<Rightarrow>
                         (Inr (), submit_finish cl (text_str murfPayload) murfAudio s3)))))"

subsection \<open>The other handlers\<close>

definition handlePromptChange :: "string \<Rightarrow> GPTForm \<Rightarrow> GPTForm" where
  "handlePromptChange v s = s\<lparr>prompt := v\<rparr>"

definition handleAudioPlay :: "nat \<Rightarrow> GPTForm \<Rightarrow> GPTForm" where
  "handleAudioPlay audioIdToPlay s =
     (if currentAudioId s = Some audioIdToPlay
      then s\<lparr>audio_paused := True, currentAudioId := None\<rparr>
      else s\<lparr>currentAudioId := Some audioIdToPlay, audio_paused := False\<rparr>)"

definition handleOnAudioPlayEnd :: "GPTForm \<Rightarrow> GPTForm" where
  "handleOnAudioPlayEnd s = s\<lparr>currentAudioId := None\<rparr>"

text \<open>The narration references recorded with a list of exchanges.\<close>

definition narrations :: "GPTQuery list \<Rightarrow> string option list" where
  "narrations qs = map gptResponseAudioUrl qs"

definition whitespace_only :: "string \<Rightarrow> bool" where
  "whitespace_only p \<longleftrightarrow> (\<forall>c \<in> set p. js_whitespace c)"

subsection \<open>The mounted component as a transition system\<close>

text \<open>
  JavaScript runs one piece of code at a time; other events are served while a handler
  waits at an \<open>await\<close>. A suspended call of \<open>handlePromptSubmit\<close> is a task: it holds
  the captured variables and the outcome with which the awaited promise will settle
  (fixed by the service when the request was sent).
\<close>

datatype task =
    AwaitGPT closure "error + completion"
  | AwaitMurf closure "string option" "error + murf_response"

text \<open>
  The continuation after an \<open>await\<close>. A rejected promise, or the TypeError of line 291,
  ends the call (\<open>None\<close>) with the state as it is; otherwise the call either suspends
  again at line 294 or runs to its end.
\<close>

fun resume :: "services \<Rightarrow> task \<Rightarrow> GPTForm \<Rightarrow> GPTForm \<times> task option" where
  "resume sv (AwaitGPT cl (Inl e)) s = (s, None)"
| "resume sv (AwaitGPT cl (Inr gptRes)) s =
     (case murfPayload_of gptRes of
        Inl e \<Rightarrow> (s, None)
      | Inr murfPayload \<Rightarrow>
          (case generateSpeechWithKey sv murfPayload s of
             (r, s1) \<Rightarrow> (s1, Some (AwaitMurf cl (text_str murfPayload) r))))"
| "resume sv (AwaitMurf cl txt (Inl e)) s = (s, None)"
| "resume sv (AwaitMurf cl txt (Inr murfAudio)) s = (submit_finish cl txt murfAudio s, None)"

text \<open>
  What can happen to the component: a click on the send button, typing into the input,
  a click on the play button of exchange \<open>i\<close>, the end of the audio, and the settling
  of the promise that the \<open>i\<close>-th suspended call waits for.
\<close>

datatype event = Click | Change string | Play nat | Ended | Settle nat

text \<open>
  \<open>fire\<close> gives the next state, or \<open>None\<close> when the event cannot happen: the input and
  the button carry \<open>disabled={status === STATUS_TYPES.LOADING}\<close> (lines 350 and 355),
  and a disabled control dispatches no event; there is a play button only for the
  exchanges that are rendered.
\<close>

fun fire :: "services \<Rightarrow> event \<Rightarrow> GPTForm \<times> task list \<Rightarrow> (GPTForm \<times> task list) option" where
  "fire sv Click (s, ts) =
     (if status s = LOADING then None
      else (case submit_begin s of
              (s1, None) \<Rightarrow> Some (s1, ts)
            | (s1, Some (cl, messagesList)) \<Rightarrow>
                (case generateChatGPTResponse sv messagesList s1 of
                   (r, s2) \<Rightarrow> Some (s2, ts @ [AwaitGPT cl r]))))"
| "fire sv (Change v) (s, ts) =
     (if status s = LOADING then None else Some (handlePromptChange v s, ts))"
| "fire sv (Play i) (s, ts) =
     (if i < length (gptQueries s) then Some (handleAudioPlay i s, ts) else None)"
| "fire sv Ended (s, ts) = Some (handleOnAudioPlayEnd s, ts)"
| "fire sv (Settle i) (s, ts) =
     (if i < length ts
      then (case resume sv (ts ! i) s of
              (s1, None) \<Rightarrow> Some (s1, take i ts @ drop (Suc i) ts)
            | (s1, Some t) \<Rightarrow> Some (s1, ts[i := t]))
      else None)"

fun run :: "services \<Rightarrow> event list \<Rightarrow> GPTForm \<times> task list \<Rightarrow> (GPTForm \<times> task list) option" where
  "run sv [] c = Some c"
| "run sv (ev # evs) c = (case fire sv ev c of None \<Rightarrow> None | Some c1 \<Rightarrow> run sv evs c1)"

text \<open>The component as mounted: the initial values of the \<open>useState\<close> calls.\<close>

definition mounted :: "GPTForm \<times> task list" where
  "mounted = (\<lparr>prompt = [], status = IDLE, gptQueries = [], currentAudioId = None,
               audio_paused = True, sent = []\<rparr>, [])"

section \<open>The video generator (dall-e-murf.mdx)\<close>

subsection \<open>Python values\<close>

text \<open>
  The script is whatever \<open>json.loads\<close> returns, and the program indexes and iterates it
  without looking at its type first, so the values are modelled with their run-time
  type: \<open>None\<close>, \<open>bool\<close>, a number, \<open>str\<close>, \<open>list\<close> and \<open>dict\<close> (its
  items in insertion order, each key once).
\<close>

datatype json =
    JNull
  | JBool bool
  | JNumber real
  | JString string
  | JArray "json list"
  | JObject "(string \<times> json) list"

text \<open>\<open>x[key]\<close> for a \<open>str\<close> key: only a \<open>dict\<close> can be indexed by it.\<close>

fun getitem :: "json \<Rightarrow> string \<Rightarrow> error + json" where
  "getitem (JObject kvs) key =
     (case map_of kvs key of None \<Rightarrow> Inl (KeyError key) | Some v \<Rightarrow> Inr v)"
| "getitem _ key = Inl TypeError"

text \<open>
  \<open>for item in x\<close>: a list gives its elements, a dict its keys, a str its characters;
  nothing else can be iterated.
\<close>

fun iter :: "json \<Rightarrow> error + json list" where
  "iter (JArray xs) = Inr xs"
| "iter (JObject kvs) = Inr (map (\<lambda>kv. JString (fst kv)) kvs)"
| "iter (JString s) = Inr (map (\<lambda>c. JString [c]) s)"
| "iter _ = Inl TypeError"

text \<open>\<open>int(x)\<close> of a float cuts the fraction off, towards zero.\<close>

definition py_int :: "real \<Rightarrow> int" where
  "py_int x = (if 0 \<le> x then \<lfloor>x\<rfloor> else \<lceil>x\<rceil>)"

text \<open>The decimal digits of a counter, as an f-string prints them.\<close>

definition digit_char :: "nat \<Rightarrow> char" where
  "digit_char d = ''0123456789'' ! d"

fun str_nat :: "nat \<Rightarrow> string" where
  "str_nat n = (if n < 10 then [digit_char n]
                else str_nat (n div 10) @ [digit_char (n mod 10)])"

declare str_nat.simps [simp del]

subsection \<open>Clips and files\<close>

record audio_clip =
  audio_filename :: string
  audio_duration :: real

record video_clip =
  image_filename :: string
  duration :: int
  audio :: "audio_clip option"

text \<open>
  The clip that \<open>concatenate_videoclips\<close> returns: its parts play one after the other,
  each from its start time.
\<close>

record composite =
  segments :: "video_clip list"
  start_times :: "int list"
  total_duration :: int

datatype file_content =
    Bytes string
  | Movie composite nat string

record FileResponse =
  path :: string
  media_type :: string

record response =
  status_code :: nat
  iter_content :: "string list"

record media =
  imageUrl :: json
  audioUrl :: json

subsection \<open>The world outside the program\<close>

text \<open>
  A call of a remote service or of the HTTP library, with the arguments the program
  passes: keyword arguments as a dict, the body of a POST as the value that
  \<open>json.dumps\<close> serialises.
\<close>

datatype call =
    ChatCompletionsCreate json
  | ImagesGenerate json
  | Post string "(string \<times> string) list" json
  | Get json

record world =
  calls :: "call list"
  files :: "string \<rightharpoonup> file_content"

text \<open>
  What the libraries and services do is a parameter. A remote answer may depend on the
  arguments and on the number of calls made before; decoding a file depends on the file.
  \<open>chat_completions_create\<close> gives \<open>message.content\<close> of every choice of the
  completion, \<open>images_generate\<close> the \<open>url\<close> of every element of \<open>data\<close>.
\<close>

record outside =
  murf_ai_api_key :: string
  chat_completions_create :: "nat \<Rightarrow> json \<Rightarrow> error + string option list"
  images_generate :: "nat \<Rightarrow> json \<Rightarrow> error + string option list"
  requests_post :: "nat \<Rightarrow> string \<Rightarrow> (string \<times> string) list \<Rightarrow> json \<Rightarrow> error + response"
  requests_get :: "nat \<Rightarrow> json \<Rightarrow> error + response"
  json_loads :: "string \<Rightarrow> error + json"
  read_audio :: "file_content \<Rightarrow> error + real"
  read_image :: "file_content \<Rightarrow> error + unit"
  encode :: "composite \<Rightarrow> nat \<Rightarrow> string \<Rightarrow> error + unit"

text \<open>
  A statement either returns a value or raises, and leaves the world as it made it.
\<close>

type_synonym 'a io = "world \<Rightarrow> (error + 'a) \<times> world"

definition and_then :: "'a io \<Rightarrow> ('a \<Rightarrow> 'b io) \<Rightarrow> 'b io" where
  "and_then m f w = (case m w of (Inl e, w1) \<Rightarrow> (Inl e, w1) | (Inr x, w1) \<Rightarrow> f x w1)"

definition lift :: "error + 'a \<Rightarrow> 'a io" where
  "lift r w = (r, w)"

text \<open>
  A call that leaves the program: it is recorded, and its outcome is the one the
  outside gives at this point of the run.
\<close>

definition perform :: "call \<Rightarrow> (nat \<Rightarrow> error + 'a) \<Rightarrow> 'a io" where
  "perform c answer w = (answer (length (calls w)), w\<lparr>calls := calls w @ [c]\<rparr>)"

text \<open>\<open>xs[0]\<close> raises IndexError on an empty list.\<close>

definition first :: "'a list \<Rightarrow> error + 'a" where
  "first xs = (case xs of [] \<Rightarrow> Inl IndexError | x # _ \<Rightarrow> Inr x)"

subsection \<open>app/openai.py\<close>

definition system_prompt :: string where
  "system_prompt =
     ''You are an automated system that helps generate 8-second videos. The user will '' @
     ''provide a prompt, based on which, you will return a JSON array of objects named '' @
     ''script. Each sentence of the script will be an object in the array. The object '' @
     ''will have the following attributes. text - the sentence of the script. '' @
     ''imagePrompt - a prompt that can be sent to DALL-E to generate the perfect, '' @
     ''photorealistic image for the given sentence that also aligns with the overall '' @
     ''context of the video; the image should have little or no text in it. voiceId - a '' @
     ''voice id that will be used by a TTS service; Only one voice should be used per '' @
     ''video; For documentary videos, use en-UK-gabriel; for promo, ad-like videos, or '' @
     ''any video with happy vibes, use en-UK-reggie for British accent or en-US-caleb '' @
     ''for American accent; for informational videos like tutorials or lessons, use '' @
     ''en-UK-hazel or en-US-miles; for other generic or general videos, use '' @
     ''en-US-miles.''"

definition script_kwargs :: "string \<Rightarrow> json" where
  "script_kwargs prompt_arg =
     JObject [(''model'', JString ''gpt-4-1106-preview''),
              (''response_format'', JObject [(''type'', JString ''json_object'')]),
              (''messages'', JArray
                 [JObject [(''role'', JString ''system''), (''content'', JString system_prompt)],
                  JObject [(''role'', JString ''user''), (''content'', JString prompt_arg)]])]"

text \<open>
  \<open>get_script\<close>, with the system prompt of lines 186 to 198. \<open>json.loads\<close> of a
  content that is \<open>None\<close> is a TypeError.
\<close>

definition loads :: "outside \<Rightarrow> string option \<Rightarrow> error + json" where
  "loads out json_str =
     (case json_str of None \<Rightarrow> Inl TypeError | Some str \<Rightarrow> json_loads out str)"

definition get_script :: "outside \<Rightarrow> string \<Rightarrow> json io" where
  "get_script out prompt_arg =
     and_then (perform (ChatCompletionsCreate (script_kwargs prompt_arg))
                 (\<lambda>t. chat_completions_create out t (script_kwargs prompt_arg)))
       (\<lambda>res_choices. and_then (lift (first res_choices))
       (\<lambda>json_str. lift (loads out json_str)))"

definition image_kwargs :: "json \<Rightarrow> json" where
  "image_kwargs prompt_arg =
     JObject [(''model'', JString ''dall-e-3''),
              (''prompt'', prompt_arg),
              (''size'', JString ''1024x1024''),
              (''quality'', JString ''standard''),
              (''n'', JNumber 1)]"

text \<open>\<open>response.data[0].url\<close>, a \<open>str\<close> or \<open>None\<close>.\<close>

definition first_url :: "string option list \<Rightarrow> error + json" where
  "first_url response_data =
     (case first response_data of
        Inl e \<Rightarrow> Inl e
      | Inr None \<Rightarrow> Inr JNull
      | Inr (Some url) \<Rightarrow> Inr (JString url))"

definition get_image :: "outside \<Rightarrow> json \<Rightarrow> json io" where
  "get_image out prompt_arg =
     and_then (perform (ImagesGenerate (image_kwargs prompt_arg))
                 (\<lambda>t. images_generate out t (image_kwargs prompt_arg)))
       (\<lambda>response_data. lift (first_url response_data))"

subsection \<open>app/murf.py\<close>

definition murf_url :: string where
  "murf_url = ''https://api.murf.ai/v1/speech/generate-with-key''"

definition murf_headers :: "outside \<Rightarrow> (string \<times> string) list" where
  "murf_headers out =
     [(''Content-Type'', ''application/json''),
      (''Accept'', ''application/json''),
      (''api-key'', murf_ai_api_key out)]"

definition murf_payload :: "json \<Rightarrow> json \<Rightarrow> json" where
  "murf_payload text_arg voice_id = JObject [(''voiceId'', voice_id), (''text'', text_arg)]"

text \<open>
  \<open>response.json()["audioFile"]\<close>: the body is parsed whatever the status of the
  response, and must be a dict with that key.
\<close>

definition audioFile_of :: "outside \<Rightarrow> response \<Rightarrow> error + json" where
  "audioFile_of out r =
     (case json_loads out (concat (iter_content r)) of
        Inl e \<Rightarrow> Inl e
      | Inr body \<Rightarrow> getitem body ''audioFile'')"

definition get_voiceover_url :: "outside \<Rightarrow> json \<Rightarrow> json \<Rightarrow> json io" where
  "get_voiceover_url out text_arg voice_id =
     and_then (perform (Post murf_url (murf_headers out) (murf_payload text_arg voice_id))
                 (\<lambda>t. requests_post out t murf_url (murf_headers out)
                        (murf_payload text_arg voice_id)))
       (\<lambda>r. lift (audioFile_of out r))"

subsection \<open>app/moviepy.py\<close>

text \<open>\<open>raise_for_status\<close> raises for the statuses 400 to 599.\<close>

definition raise_for_status :: "response \<Rightarrow> error + unit" where
  "raise_for_status r =
     (if 400 \<le> status_code r \<and> status_code r < 600 then Inl (HTTPError (status_code r))
      else Inr ())"

text \<open>
  \<open>open(local_filename, "wb")\<close> and the loop over the chunks: the file is created or
  emptied, and the chunks are written one after the other.
\<close>

definition write_chunks :: "string \<Rightarrow> string list \<Rightarrow> unit io" where
  "write_chunks local_filename chunks w =
     (Inr (), w\<lparr>files := (files w)(local_filename \<mapsto>
                   Bytes (fold (\<lambda>chunk written. written @ chunk) chunks []))\<rparr>)"

definition download_file :: "outside \<Rightarrow> json \<Rightarrow> string \<Rightarrow> string io" where
  "download_file out url local_filename =
     and_then (perform (Get url) (\<lambda>t. requests_get out t url))
       (\<lambda>r. and_then (lift (raise_for_status r))
       (\<lambda>_. and_then (write_chunks local_filename (iter_content r))
       (\<lambda>_. lift (Inr local_filename))))"

text \<open>The two clip constructors open the file they are given.\<close>

definition AudioFileClip :: "outside \<Rightarrow> string \<Rightarrow> audio_clip io" where
  "AudioFileClip out audio_path w =
     (case files w audio_path of
        None \<Rightarrow> (Inl (OSError audio_path), w)
      | Some f \<Rightarrow>
          (case read_audio out f of
             Inl e \<Rightarrow> (Inl e, w)
           | Inr d \<Rightarrow> (Inr \<lparr>audio_filename = audio_path, audio_duration = d\<rparr>, w)))"

definition ImageClip :: "outside \<Rightarrow> string \<Rightarrow> int \<Rightarrow> video_clip io" where
  "ImageClip out image_path d w =
     (case files w image_path of
        None \<Rightarrow> (Inl (OSError image_path), w)
      | Some f \<Rightarrow>
          (case read_image out f of
             Inl e \<Rightarrow> (Inl e, w)
           | Inr _ \<Rightarrow> (Inr \<lparr>image_filename = image_path, duration = d, audio = None\<rparr>, w)))"

definition set_audio :: "video_clip \<Rightarrow> audio_clip \<Rightarrow> video_clip" where
  "set_audio video_clip audio_clip = video_clip\<lparr>audio := Some audio_clip\<rparr>"

text \<open>
  \<open>concatenate_videoclips\<close> (moviepy 1, method \<open>chain\<close>): the running sums of
  \<open>[0] + [c.duration for c in clips]\<close> give the start times and, as the last one, the
  duration of the result; taking the largest clip size raises ValueError when there is
  no clip.
\<close>

fun cumsum :: "int \<Rightarrow> int list \<Rightarrow> int list" where
  "cumsum acc [] = []"
| "cumsum acc (x # xs) = (acc + x) # cumsum (acc + x) xs"

definition concatenate_videoclips :: "video_clip list \<Rightarrow> error + composite" where
  "concatenate_videoclips clips =
     (let tt = cumsum 0 (0 # map duration clips)
      in if clips = [] then Inl ValueError
         else Inr \<lparr>segments = clips, start_times = butlast tt, total_duration = last tt\<rparr>)"

text \<open>
  \<open>write_videofile\<close> encodes the clip into the named file. A failed encoding is
  modelled as leaving the files as they were.
\<close>

definition write_videofile :: "outside \<Rightarrow> composite \<Rightarrow> string \<Rightarrow> nat \<Rightarrow> string \<Rightarrow> unit io" where
  "write_videofile out clip output_path fps codec w =
     (case encode out clip fps codec of
        Inl e \<Rightarrow> (Inl e, w)
      | Inr _ \<Rightarrow> (Inr (), w\<lparr>files := (files w)(output_path \<mapsto> Movie clip fps codec)\<rparr>))"

definition image_name :: "nat \<Rightarrow> string" where
  "image_name counter = ''image_'' @ str_nat counter @ ''.png''"

definition audio_name :: "nat \<Rightarrow> string" where
  "audio_name counter = ''audio_'' @ str_nat counter @ ''.wav''"

text \<open>
  The body of the loop of \<open>get_final_video\<close>, lines 274 to 284: the clip for one
  media pair, with the value of \<open>counter\<close> in the two file names.
\<close>

definition make_clip :: "outside \<Rightarrow> media \<Rightarrow> nat \<Rightarrow> video_clip io" where
  "make_clip out data counter =
     and_then (download_file out (imageUrl data) (image_name counter))
       (\<lambda>image_path. and_then (download_file out (audioUrl data) (audio_name counter))
       (\<lambda>audio_path. and_then (AudioFileClip out audio_path)
       (\<lambda>audio_clip. and_then (ImageClip out image_path (py_int (audio_duration audio_clip) + 1))
       (\<lambda>video_clip. lift (Inr (set_audio video_clip audio_clip))))))"

text \<open>The loop itself, lines 273 to 288, with \<open>video_clips\<close> and \<open>counter\<close>.\<close>

fun get_final_video_loop ::
  "outside \<Rightarrow> media list \<Rightarrow> nat \<Rightarrow> video_clip list \<Rightarrow> video_clip list io" where
  "get_final_video_loop out [] counter video_clips w = (Inr video_clips, w)"
| "get_final_video_loop out (data # rest) counter video_clips w =
     (case make_clip out data counter w of
        (Inl e, w1) \<Rightarrow> (Inl e, w1)
      | (Inr video_clip, w1) \<Rightarrow>
          get_final_video_loop out rest (counter + 1) (video_clips @ [video_clip]) w1)"

definition output_path :: string where
  "output_path = ''output_video.mp4''"

definition get_final_video :: "outside \<Rightarrow> media list \<Rightarrow> FileResponse io" where
  "get_final_video out data_list =
     and_then (get_final_video_loop out data_list 0 [])
       (\<lambda>video_clips. and_then (lift (concatenate_videoclips video_clips))
       (\<lambda>final_video. and_then (write_videofile out final_video output_path 24 ''libx264'')
       (\<lambda>_. lift (Inr \<lparr>path = output_path, media_type = ''video/mp4''\<rparr>))))"

subsection \<open>app/main.py\<close>

text \<open>
  The body of the loop of \<open>get_ai_video\<close>, lines 338 to 340: the media pair for one
  item of the script.
\<close>

definition make_pair :: "outside \<Rightarrow> json \<Rightarrow> media io" where
  "make_pair out item =
     and_then (lift (getitem item ''imagePrompt''))
       (\<lambda>image_prompt. and_then (get_image out image_prompt)
       (\<lambda>image_url. and_then (lift (getitem item ''text''))
       (\<lambda>text_arg. and_then (lift (getitem item ''voiceId''))
       (\<lambda>voice_id. and_then (get_voiceover_url out text_arg voice_id)
       (\<lambda>audio_url. lift (Inr \<lparr>imageUrl = image_url, audioUrl = audio_url\<rparr>))))))"

text \<open>The loop itself, lines 337 to 340, with \<open>data_list\<close>.\<close>

fun get_ai_video_loop :: "outside \<Rightarrow> json list \<Rightarrow> media list \<Rightarrow> media list io" where
  "get_ai_video_loop out [] data_list w = (Inr data_list, w)"
| "get_ai_video_loop out (item # rest) data_list w =
     (case make_pair out item w of
        (Inl e, w1) \<Rightarrow> (Inl e, w1)
      | (Inr data, w1) \<Rightarrow> get_ai_video_loop out rest (data_list @ [data]) w1)"

definition get_ai_video :: "outside \<Rightarrow> string \<Rightarrow> FileResponse io" where
  "get_ai_video out payload_prompt =
     and_then (get_script out payload_prompt)
       (\<lambda>script. and_then (lift (getitem script ''script''))
       (\<lambda>script_arr. and_then (lift (iter script_arr))
       (\<lambda>items. and_then (get_ai_video_loop out items [])
       (\<lambda>data_list. get_final_video out data_list))))"

section \<open>Concrete sessions and runs\<close>

subsection \<open>A chat session\<close>

definition jupiter_services :: services where
  "jupiter_services =
     \<lparr>openai_createChatCompletion = (\<lambda>t body.
        Inr \<lparr>choices = [\<lparr>message = Some \<lparr>role = Assistant, content = Some ''About 11 times wider.''\<rparr>\<rparr>]\<rparr>),
      murf_post_speech = (\<lambda>t data. Inr \<lparr>audioFile = Some ''https://murf.ai/user-upload/2.mp3''\<rparr>)\<rparr>"

definition jupiter_form :: GPTForm where
  "jupiter_form =
     \<lparr>prompt = ''How big is it compared to earth?'',
      status = IDLE,
      gptQueries = [\<lparr>question = ''Which is the largest planet in the solar system?'',
                     gptResponse = Some ''Jupiter is the largest planet in the Solar system'',
                     gptResponseAudioUrl = Some ''https://murf.ai/user-upload/1.mp3''\<rparr>],
      currentAudioId = None,
      audio_paused = True,
      sent = []\<rparr>"

definition blank_form :: GPTForm where
  "blank_form = jupiter_form\<lparr>prompt := [CHR '' '', CHR 0x09, CHR 0xA0]\<rparr>"

text \<open>The state after typing a question and clicking once, and the call then suspended.\<close>

definition hello_task :: task where
  "hello_task =
     AwaitGPT \<lparr>c_prompt = ''Hello'', c_gptQueries = []\<rparr>
       (Inr \<lparr>choices = [\<lparr>message = Some \<lparr>role = Assistant, content = Some ''About 11 times wider.''\<rparr>\<rparr>]\<rparr>)"

definition hello_loading :: GPTForm where
  "hello_loading =
     \<lparr>prompt = ''Hello'', status = LOADING, gptQueries = [], currentAudioId = None,
      audio_paused = True,
      sent = [ChatCompletion \<lparr>model = ''gpt-3.5-turbo'',
                messages = [\<lparr>role = User, content = Some ''Hello''\<rparr>],
                max_tokens = 1000\<rparr>]\<rparr>"

subsection \<open>A run of the video generator\<close>

text \<open>
  Three replies of the language model: a script of two sentences with one voice, the
  same script with two voices, and a JSON object that holds no script.
\<close>

definition sahara_reply :: string where
  \<open>sahara_reply = ''{"script": [{"text": "The Sahara whispers.", "imagePrompt": "Golden sands", "voiceId": "en-UK-gabriel"}, {"text": "Its dunes tell tales.", "imagePrompt": "Sand dunes", "voiceId": "en-UK-gabriel"}]}''\<close>

definition mixed_reply :: string where
  \<open>mixed_reply = ''{"script": [{"text": "The Sahara whispers.", "imagePrompt": "Golden sands", "voiceId": "en-UK-gabriel"}, {"text": "Its dunes tell tales.", "imagePrompt": "Sand dunes", "voiceId": "en-US-miles"}]}''\<close>

definition foo_reply :: string where
  \<open>foo_reply = ''{"foo": 1}''\<close>

definition murf_body :: string where
  \<open>murf_body = ''{"audioFile": "https://murf.ai/a.wav"}''\<close>

definition sahara_items :: "json list" where
  "sahara_items =
     [JObject [(''text'', JString ''The Sahara whispers.''),
               (''imagePrompt'', JString ''Golden sands''),
               (''voiceId'', JString ''en-UK-gabriel'')],
      JObject [(''text'', JString ''Its dunes tell tales.''),
               (''imagePrompt'', JString ''Sand dunes''),
               (''voiceId'', JString ''en-UK-gabriel'')]]"

definition mixed_items :: "json list" where
  "mixed_items =
     [JObject [(''text'', JString ''The Sahara whispers.''),
               (''imagePrompt'', JString ''Golden sands''),
               (''voiceId'', JString ''en-UK-gabriel'')],
      JObject [(''text'', JString ''Its dunes tell tales.''),
               (''imagePrompt'', JString ''Sand dunes''),
               (''voiceId'', JString ''en-US-miles'')]]"

text \<open>What \<open>json.loads\<close> gives on these four texts; any other text is refused here.\<close>

definition known_json :: "string \<Rightarrow> error + json" where
  "known_json str =
     (if str = sahara_reply then Inr (JObject [(''script'', JArray sahara_items)])
      else if str = mixed_reply then Inr (JObject [(''script'', JArray mixed_items)])
      else if str = foo_reply then Inr (JObject [(''foo'', JNumber 1)])
      else if str = murf_body then Inr (JObject [(''audioFile'', JString ''https://murf.ai/a.wav'')])
      else Inl (Raised ''JSONDecodeError''))"

text \<open>
  An outside in which every service answers: the language model with the given reply,
  the image service with a URL that names the call, Murf with \<open>murf_body\<close>, every
  download with the given chunks, and every audio file lasts two and a half seconds.
\<close>

definition studio :: "string \<Rightarrow> string list \<Rightarrow> outside" where
  "studio reply chunks =
     \<lparr>murf_ai_api_key = ''secret'',
      chat_completions_create = (\<lambda>t kwargs. Inr [Some reply]),
      images_generate = (\<lambda>t kwargs. Inr [Some (''https://img/'' @ str_nat t)]),
      requests_post = (\<lambda>t url headers payload.
        Inr \<lparr>status_code = 200, iter_content = [murf_body]\<rparr>),
      requests_get = (\<lambda>t url. Inr \<lparr>status_code = 200, iter_content = chunks\<rparr>),
      json_loads = known_json,
      read_audio = (\<lambda>f. Inr (5 / 2)),
      read_image = (\<lambda>f. Inr ()),
      encode = (\<lambda>clip fps codec. Inr ())\<rparr>"

text \<open>The same outside, except that the image service refuses call \<open>t0\<close>.\<close>

definition refusing :: "nat \<Rightarrow> outside" where
  "refusing t0 =
     (studio sahara_reply [''ab'', ''cd''])\<lparr>images_generate := (\<lambda>t kwargs.
        if t = t0 then Inl (Raised ''RateLimitError'')
        else Inr [Some (''https://img/'' @ str_nat t)])\<rparr>"

definition empty_world :: world where
  "empty_world = \<lparr>calls = [], files = Map.empty\<rparr>"

definition sahara_pairs :: "media list" where
  "sahara_pairs =
     [\<lparr>imageUrl = JString ''https://img/1'', audioUrl = JString ''https://murf.ai/a.wav''\<rparr>,
      \<lparr>imageUrl = JString ''https://img/3'', audioUrl = JString ''https://murf.ai/a.wav''\<rparr>]"

definition sahara_segments :: "video_clip list" where
  "sahara_segments =
     [\<lparr>image_filename = ''image_0.png'', duration = 3,
       audio = Some \<lparr>audio_filename = ''audio_0.wav'', audio_duration = 5 / 2\<rparr>\<rparr>,
      \<lparr>image_filename = ''image_1.png'', duration = 3,
       audio = Some \<lparr>audio_filename = ''audio_1.wav'', audio_duration = 5 / 2\<rparr>\<rparr>]"

definition sahara_movie :: file_content where
  "sahara_movie =
     Movie \<lparr>segments = sahara_segments, start_times = [0, 3], total_duration = 6\<rparr>
       24 ''libx264''"

subsection \<open>Predicates used in the statements\<close>

text \<open>The variables captured by a suspended call.\<close>

fun task_closure :: "task \<Rightarrow> closure" where
  "task_closure (AwaitGPT cl r) = cl"
| "task_closure (AwaitMurf cl txt r) = cl"

text \<open>
  At most one call is suspended; while one is, the status is \<open>LOADING\<close> and the
  history it captured is the current one.
\<close>

definition one_at_a_time :: "GPTForm \<times> task list \<Rightarrow> bool" where
  "one_at_a_time c \<longleftrightarrow>
     (case c of (s, ts) \<Rightarrow>
        length ts \<le> 1 \<and>
        (\<forall>t \<in> set ts. status s = LOADING \<and> c_gptQueries (task_closure t) = gptQueries s))"


text \<open>Reading a decimal numeral back, the inverse of \<open>str_nat\<close>.\<close>

definition nat_of_digits :: "string \<Rightarrow> nat" where
  "nat_of_digits ds = foldl (\<lambda>acc c. 10 * acc + (of_char c - 48)) 0 ds"

text \<open>
  What the body of the loop of \<open>get_ai_video\<close> gives for an item when \<open>t\<close> calls have
  been made before it: the image request is call \<open>t\<close>, the voice request call \<open>t + 1\<close>.
\<close>

definition pair_at :: "outside \<Rightarrow> nat \<Rightarrow> json \<Rightarrow> error + media" where
  "pair_at out t item =
     (case getitem item ''imagePrompt'' of Inl e \<Rightarrow> Inl e | Inr image_prompt \<Rightarrow>
     (case images_generate out t (image_kwargs image_prompt) of Inl e \<Rightarrow> Inl e | Inr d \<Rightarrow>
     (case first_url d of Inl e \<Rightarrow> Inl e | Inr image_url \<Rightarrow>
     (case getitem item ''text'' of Inl e \<Rightarrow> Inl e | Inr text_arg \<Rightarrow>
     (case getitem item ''voiceId'' of Inl e \<Rightarrow> Inl e | Inr voice_id \<Rightarrow>
     (case requests_post out (t + 1) murf_url (murf_headers out)
             (murf_payload text_arg voice_id) of Inl e \<Rightarrow> Inl e | Inr r \<Rightarrow>
     (case audioFile_of out r of Inl e \<Rightarrow> Inl e | Inr audio_url \<Rightarrow>
        Inr \<lparr>imageUrl = image_url, audioUrl = audio_url\<rparr>)))))))"

text \<open>
  What the body of the loop of \<open>get_final_video\<close> gives for a media pair when \<open>t\<close>
  calls have been made before it: the image download is call \<open>t\<close>, the audio download
  call \<open>t + 1\<close>, and the clips are read from what was downloaded.
\<close>

definition stored :: "response \<Rightarrow> file_content" where
  "stored r = Bytes (concat (iter_content r))"

definition clip_at :: "outside \<Rightarrow> nat \<Rightarrow> nat \<Rightarrow> media \<Rightarrow> error + video_clip" where
  "clip_at out t counter data =
     (case requests_get out t (imageUrl data) of Inl e \<Rightarrow> Inl e | Inr ri \<Rightarrow>
     (case raise_for_status ri of Inl e \<Rightarrow> Inl e | Inr _ \<Rightarrow>
     (case requests_get out (t + 1) (audioUrl data) of Inl e \<Rightarrow> Inl e | Inr ra \<Rightarrow>
     (case raise_for_status ra of Inl e \<Rightarrow> Inl e | Inr _ \<Rightarrow>
     (case read_audio out (stored ra) of Inl e \<Rightarrow> Inl e | Inr d \<Rightarrow>
     (case read_image out (stored ri) of Inl e \<Rightarrow> Inl e | Inr _ \<Rightarrow>
        Inr \<lparr>image_filename = image_name counter, duration = py_int d + 1,
             audio = Some \<lparr>audio_filename = audio_name counter, audio_duration = d\<rparr>\<rparr>))))))"

text \<open>The two requests that the loop of \<open>get_ai_video\<close> makes for an item.\<close>

definition requests_for :: "outside \<Rightarrow> json \<Rightarrow> call list" where
  "requests_for out item =
     (case (getitem item ''imagePrompt'', getitem item ''text'', getitem item ''voiceId'') of
        (Inr image_prompt, Inr text_arg, Inr voice_id) \<Rightarrow>
          [ImagesGenerate (image_kwargs image_prompt),
           Post murf_url (murf_headers out) (murf_payload text_arg voice_id)]
      | _ \<Rightarrow> [])"

text \<open>The two downloads that the loop of \<open>get_final_video\<close> makes for a media pair.\<close>

definition downloads_for :: "media \<Rightarrow> call list" where
  "downloads_for data = [Get (imageUrl data), Get (audioUrl data)]"

text \<open>The voiceIds that a run has sent to Murf, in the order of the requests.\<close>

fun voice_of_call :: "call \<Rightarrow> json list" where
  "voice_of_call (Post url headers payload) =
     (case getitem payload ''voiceId'' of Inr v \<Rightarrow> [v] | Inl e \<Rightarrow> [])"
| "voice_of_call _ = []"

definition voices_requested :: "call list \<Rightarrow> json list" where
  "voices_requested cs = concat (map voice_of_call cs)"

text \<open>The voiceId that an item of the script carries.\<close>

definition voice_of :: "json \<Rightarrow> json" where
  "voice_of item = (case getitem item ''voiceId'' of Inr v \<Rightarrow> v | Inl e \<Rightarrow> JNull)"

text \<open>The scratch files of a run over \<open>k\<close> media pairs.\<close>

definition scratch_names :: "nat \<Rightarrow> string set" where
  "scratch_names k = image_name ` {0..<k} \<union> audio_name ` {0..<k}"

text \<open>The length in seconds of the narration attached to a segment.\<close>

definition narration_seconds :: "video_clip \<Rightarrow> real" where
  "narration_seconds seg = (case audio seg of None \<Rightarrow> 0 | Some a \<Rightarrow> audio_duration a)"

section \<open>Properties of the chatbot\<close>

lemma all_dropWhile: "(\<forall>x \<in> set (dropWhile P xs). P x) \<longleftrightarrow> (\<forall>x \<in> set xs. P x)"
  by (induction xs) auto

lemma trim_empty_iff: "trim s = [] \<longleftrightarrow> (\<forall>c \<in> set s. js_whitespace c)"
  by (simp add: trim_def all_dropWhile)

lemma blank_iff: "prompt s = [] \<or> trim (prompt s) = [] \<longleftrightarrow> whitespace_only (prompt s)"
  by (auto simp: trim_empty_iff whitespace_only_def)

text \<open>
  C10. Submitting an empty or white-space-only prompt returns at once: no request is
  sent to the language model or to the voice service, and the prompt, the status, the
  history and every other part of the state stay as they were.
\<close>

theorem blank_prompt_is_ignored:
  "whitespace_only (prompt s) \<Longrightarrow> handlePromptSubmit sv s = (Inr (), s)"
  by (simp add: handlePromptSubmit_def submit_begin_def blank_iff)

theorem blank_prompt_is_ignored_witness:
  "whitespace_only (prompt blank_form) \<and>
   handlePromptSubmit jupiter_services blank_form = (Inr (), blank_form)"
proof -
  have blank: "whitespace_only (prompt blank_form)"
    by (simp add: blank_form_def whitespace_only_def js_whitespace_def)
  from blank blank_prompt_is_ignored [OF blank] show ?thesis by simp
qed

lemma history_messages_append:
  "history_messages (qs @ rs) = history_messages qs @ history_messages rs"
  by (induction qs) simp_all

lemma length_history_messages: "length (history_messages qs) = 2 * length qs"
  by (induction qs) simp_all

text \<open>
  C3. A call of \<open>handlePromptSubmit\<close> with a prompt that is not blank and that ends
  without an error appends exactly one exchange: the conversation that the history
  stands for grows by the user's message and the assistant's reply (two messages), one
  narration reference is added, every earlier turn and reference stays in place, and
  exactly two requests were sent: the whole conversation with the new message to the
  language model, and the reply with the fixed voice to Murf.
\<close>

theorem submit_appends_one_exchange:
  assumes "\<not> whitespace_only (prompt s)"
    and "handlePromptSubmit sv s = (Inr (), s')"
  shows "\<exists>reply url.
           gptQueries s' = gptQueries s @
             [\<lparr>question = prompt s, gptResponse = reply, gptResponseAudioUrl = url\<rparr>] \<and>
           history_messages (gptQueries s') = history_messages (gptQueries s) @
             [\<lparr>role = User, content = Some (prompt s)\<rparr>, \<lparr>role = Assistant, content = reply\<rparr>] \<and>
           length (history_messages (gptQueries s')) =
             length (history_messages (gptQueries s)) + 2 \<and>
           narrations (gptQueries s') = narrations (gptQueries s) @ [url] \<and>
           sent s' = sent s @
             [ChatCompletion \<lparr>model = ''gpt-3.5-turbo'',
                messages = history_messages (gptQueries s) @
                             [\<lparr>role = User, content = Some (prompt s)\<rparr>],
                max_tokens = 1000\<rparr>,
              SpeechGenerateWithKey
                \<lparr>voiceId = ''en-US-marcus'', format = ''MP3'', text_str = reply\<rparr>]"
proof -
  from assms(1) have nb: "\<not> (prompt s = [] \<or> trim (prompt s) = [])"
    by (simp add: blank_iff)
  let ?msgs = "history_messages (gptQueries s) @ [\<lparr>role = User, content = Some (prompt s)\<rparr>]"
  let ?cl = "\<lparr>c_prompt = prompt s, c_gptQueries = gptQueries s\<rparr>"
  from nb have start: "submit_begin s = (s\<lparr>status := LOADING\<rparr>, Some (?cl, ?msgs))"
    by (simp add: submit_begin_def)
  obtain r1 s2 where gpt: "generateChatGPTResponse sv ?msgs (s\<lparr>status := LOADING\<rparr>) = (r1, s2)"
    by fastforce
  from assms(2) start gpt obtain gptRes where r1: "r1 = Inr gptRes"
    by (cases r1) (simp_all add: handlePromptSubmit_def)
  from assms(2) start gpt r1 obtain murfPayload where pay: "murfPayload_of gptRes = Inr murfPayload"
    by (cases "murfPayload_of gptRes") (simp_all add: handlePromptSubmit_def)
  obtain r2 s3 where murf: "generateSpeechWithKey sv murfPayload s2 = (r2, s3)"
    by fastforce
  from assms(2) start gpt r1 pay murf obtain murfAudio where r2: "r2 = Inr murfAudio"
    by (cases r2) (simp_all add: handlePromptSubmit_def)
  from assms(2) start gpt r1 pay murf r2
  have s': "s' = submit_finish ?cl (text_str murfPayload) murfAudio s3"
    by (simp add: handlePromptSubmit_def)
  from pay have payload: "murfPayload =
      \<lparr>voiceId = ''en-US-marcus'', format = ''MP3'', text_str = text_str murfPayload\<rparr>"
    by (auto simp: murfPayload_of_def split: sum.splits)
  from gpt have s2: "s2 = s\<lparr>status := LOADING,
      sent := sent s @ [ChatCompletion \<lparr>model = ''gpt-3.5-turbo'', messages = ?msgs,
                                        max_tokens = 1000\<rparr>]\<rparr>"
    by (auto simp: generateChatGPTResponse_def Let_def)
  from murf have s3: "s3 = s2\<lparr>sent := sent s2 @ [SpeechGenerateWithKey murfPayload]\<rparr>"
    by (auto simp: generateSpeechWithKey_def)
  let ?reply = "text_str murfPayload"
  let ?url = "audioFile murfAudio"
  have q: "gptQueries s' = gptQueries s @
      [\<lparr>question = prompt s, gptResponse = ?reply, gptResponseAudioUrl = ?url\<rparr>]"
    by (simp add: s' submit_finish_def)
  have sent: "sent s' = sent s @
      [ChatCompletion \<lparr>model = ''gpt-3.5-turbo'', messages = ?msgs, max_tokens = 1000\<rparr>,
       SpeechGenerateWithKey \<lparr>voiceId = ''en-US-marcus'', format = ''MP3'', text_str = ?reply\<rparr>]"
    using payload by (simp add: s' s3 s2 submit_finish_def)
  have h: "history_messages (gptQueries s') = history_messages (gptQueries s) @
      [\<lparr>role = User, content = Some (prompt s)\<rparr>, \<lparr>role = Assistant, content = ?reply\<rparr>]"
    by (simp add: q history_messages_append)
  have l: "length (history_messages (gptQueries s')) =
      length (history_messages (gptQueries s)) + 2"
    by (simp add: h)
  have n: "narrations (gptQueries s') = narrations (gptQueries s) @ [?url]"
    by (simp add: q narrations_def)
  from q h l n sent show ?thesis by blast
qed

theorem submit_appends_one_exchange_witness:
  "\<not> whitespace_only (prompt jupiter_form) \<and>
   fst (handlePromptSubmit jupiter_services jupiter_form) = Inr () \<and>
   length (gptQueries jupiter_form) = 1 \<and>
   length (gptQueries (snd (handlePromptSubmit jupiter_services jupiter_form))) = 2 \<and>
   length (history_messages (gptQueries (snd (handlePromptSubmit jupiter_services jupiter_form)))) = 4 \<and>
   narrations (gptQueries (snd (handlePromptSubmit jupiter_services jupiter_form))) =
     [Some ''https://murf.ai/user-upload/1.mp3'', Some ''https://murf.ai/user-upload/2.mp3'']"
proof -
  have nb: "\<not> whitespace_only (prompt jupiter_form)"
    by (simp add: jupiter_form_def whitespace_only_def js_whitespace_def)
  have nt: "trim (prompt jupiter_form) \<noteq> []"
    using nb by (simp add: trim_empty_iff whitespace_only_def)
  have ok: "fst (handlePromptSubmit jupiter_services jupiter_form) = Inr ()"
    using nt
    by (simp add: handlePromptSubmit_def submit_begin_def generateChatGPTResponse_def
        generateSpeechWithKey_def murfPayload_of_def first_choice_content_def
        jupiter_services_def jupiter_form_def)
  then have run: "handlePromptSubmit jupiter_services jupiter_form =
      (Inr (), snd (handlePromptSubmit jupiter_services jupiter_form))"
    by (metis prod.collapse)
  from submit_appends_one_exchange [OF nb run]
  obtain reply url where
    q: "gptQueries (snd (handlePromptSubmit jupiter_services jupiter_form)) =
          gptQueries jupiter_form @
            [\<lparr>question = prompt jupiter_form, gptResponse = reply, gptResponseAudioUrl = url\<rparr>]"
    and l: "length (history_messages (gptQueries (snd (handlePromptSubmit jupiter_services jupiter_form)))) =
          length (history_messages (gptQueries jupiter_form)) + 2"
    by blast
  have n: "narrations (gptQueries (snd (handlePromptSubmit jupiter_services jupiter_form))) =
     [Some ''https://murf.ai/user-upload/1.mp3'', Some ''https://murf.ai/user-upload/2.mp3'']"
    using nt
    by (simp add: handlePromptSubmit_def submit_begin_def generateChatGPTResponse_def
        generateSpeechWithKey_def murfPayload_of_def first_choice_content_def submit_finish_def
        narrations_def jupiter_services_def jupiter_form_def)
  have l1: "length (gptQueries jupiter_form) = 1"
    by (simp add: jupiter_form_def)
  have l4: "length (history_messages (gptQueries jupiter_form)) = 2"
    by (simp add: jupiter_form_def)
  from nb ok q l n l1 l4 show ?thesis by simp
qed

subsection \<open>One submission at a time\<close>

text \<open>
  What holds in every state the component can reach: at most one call is suspended;
  while one is, the status is \<open>LOADING\<close>, and the history it captured is still the
  current one.
\<close>

lemma generateChatGPTResponse_keeps:
  "generateChatGPTResponse sv msgs s = (r, s1) \<Longrightarrow>
     status s1 = status s \<and> gptQueries s1 = gptQueries s"
  by (auto simp: generateChatGPTResponse_def Let_def)

lemma generateSpeechWithKey_keeps:
  "generateSpeechWithKey sv data s = (r, s1) \<Longrightarrow>
     status s1 = status s \<and> gptQueries s1 = gptQueries s"
  by (auto simp: generateSpeechWithKey_def)

lemma resume_cases:
  assumes "resume sv t s = (s1, r)"
  shows "(r = None \<and> (s1 = s \<or> (\<exists>txt a. s1 = submit_finish (task_closure t) txt a s))) \<or>
         (\<exists>t1. r = Some t1 \<and> task_closure t1 = task_closure t \<and>
               status s1 = status s \<and> gptQueries s1 = gptQueries s)"
proof (cases t)
  case (AwaitGPT cl res)
  show ?thesis
  proof (cases res)
    case (Inl e)
    with AwaitGPT assms show ?thesis by auto
  next
    case (Inr gptRes)
    show ?thesis
    proof (cases "murfPayload_of gptRes")
      case (Inl e)
      with AwaitGPT \<open>res = Inr gptRes\<close> assms show ?thesis by auto
    next
      case (Inr murfPayload)
      obtain r2 s2 where m: "generateSpeechWithKey sv murfPayload s = (r2, s2)"
        by fastforce
      from generateSpeechWithKey_keeps [OF m] m Inr AwaitGPT \<open>res = Inr gptRes\<close> assms
      show ?thesis by auto
    qed
  qed
next
  case (AwaitMurf cl reply res)
  with assms show ?thesis by (cases res) auto
qed


lemma fire_keeps_one_at_a_time:
  assumes inv: "one_at_a_time c" and step: "fire sv ev c = Some c1"
  shows "one_at_a_time c1"
proof -
  obtain s ts where c: "c = (s, ts)" by (cases c)
  from inv c have len: "length ts \<le> 1"
    and busy: "\<And>t. t \<in> set ts \<Longrightarrow> status s = LOADING \<and> c_gptQueries (task_closure t) = gptQueries s"
    by (auto simp: one_at_a_time_def)
  show ?thesis
  proof (cases ev)
    case Click
    with step c have idle: "status s \<noteq> LOADING"
      by (auto split: if_splits)
    with busy have none: "ts = []"
      by (cases ts) auto
    show ?thesis
    proof (cases "snd (submit_begin s)")
      case None
      then have "submit_begin s = (s, None)"
        by (auto simp: submit_begin_def Let_def split: if_splits)
      with step c Click idle none have "c1 = (s, [])"
        by simp
      then show ?thesis
        by (simp add: one_at_a_time_def)
    next
      case (Some p)
      obtain cl messagesList where p: "p = (cl, messagesList)" by (cases p)
      from Some p have sb: "submit_begin s = (s\<lparr>status := LOADING\<rparr>, Some (cl, messagesList))"
        and cl: "c_gptQueries cl = gptQueries s"
        by (auto simp: submit_begin_def Let_def split: if_splits)
      obtain r s2 where g: "generateChatGPTResponse sv messagesList (s\<lparr>status := LOADING\<rparr>) = (r, s2)"
        by fastforce
      from step c Click idle none sb g have c1: "c1 = (s2, [AwaitGPT cl r])"
        by simp
      from generateChatGPTResponse_keeps [OF g] cl show ?thesis
        by (simp add: c1 one_at_a_time_def)
    qed
  next
    case (Change v)
    with step c have idle: "status s \<noteq> LOADING" and c1: "c1 = (handlePromptChange v s, ts)"
      by (auto split: if_splits)
    from idle busy have "ts = []"
      by (cases ts) auto
    with c1 show ?thesis
      by (simp add: one_at_a_time_def)
  next
    case (Play i)
    with step c have "c1 = (handleAudioPlay i s, ts)"
      by (auto split: if_splits)
    with len busy show ?thesis
      by (auto simp: one_at_a_time_def handleAudioPlay_def)
  next
    case Ended
    with step c have "c1 = (handleOnAudioPlayEnd s, ts)"
      by simp
    with len busy show ?thesis
      by (auto simp: one_at_a_time_def handleOnAudioPlayEnd_def)
  next
    case (Settle i)
    with step c have i: "i < length ts"
      by (auto split: if_splits)
    with len obtain t where ts: "ts = [t]" and i0: "i = 0"
      by (cases ts) auto
    obtain s1 r where res: "resume sv t s = (s1, r)"
      by fastforce
    from busy ts have st: "status s = LOADING" and q: "c_gptQueries (task_closure t) = gptQueries s"
      by auto
    from resume_cases [OF res] show ?thesis
    proof
      assume "r = None \<and> (s1 = s \<or> (\<exists>txt a. s1 = submit_finish (task_closure t) txt a s))"
      then have "r = None" by simp
      with step c Settle ts i0 res have "c1 = (s1, [])"
        by simp
      then show ?thesis
        by (simp add: one_at_a_time_def)
    next
      assume "\<exists>t1. r = Some t1 \<and> task_closure t1 = task_closure t \<and>
                 status s1 = status s \<and> gptQueries s1 = gptQueries s"
      then obtain t1 where r: "r = Some t1" and cl: "task_closure t1 = task_closure t"
        and keep: "status s1 = status s" "gptQueries s1 = gptQueries s"
        by blast
      from step c Settle ts i0 res r have "c1 = (s1, [t1])"
        by simp
      with cl keep st q show ?thesis
        by (simp add: one_at_a_time_def)
    qed
  qed
qed

lemma run_keeps_one_at_a_time:
  "one_at_a_time c \<Longrightarrow> run sv evs c = Some c1 \<Longrightarrow> one_at_a_time c1"
proof (induction evs arbitrary: c)
  case Nil
  then show ?case by simp
next
  case (Cons ev evs)
  from Cons.prems(2) obtain c2 where f: "fire sv ev c = Some c2" and r: "run sv evs c2 = Some c1"
    by (auto split: option.splits)
  from fire_keeps_one_at_a_time [OF Cons.prems(1) f] r Cons.IH show ?case
    by blast
qed

lemma mounted_one_at_a_time: "one_at_a_time mounted"
  by (simp add: one_at_a_time_def mounted_def)

text \<open>
  C8. In every state that the mounted component reaches, whatever is typed and clicked
  and in whatever order the promises settle, at most one call of
  \<open>handlePromptSubmit\<close> is in flight. While one is, the status is \<open>LOADING\<close>, so the
  send button and the input are disabled: a further click or keystroke is rejected (it
  is no event at all), and the history that the pending call will append to is the
  current one. Two submits therefore never interleave their appends.
\<close>

theorem at_most_one_submit_in_flight:
  assumes "run sv evs mounted = Some (s, ts)"
  shows "length ts \<le> 1 \<and>
         (\<forall>t \<in> set ts.
            status s = LOADING \<and>
            fire sv Click (s, ts) = None \<and>
            (\<forall>v. fire sv (Change v) (s, ts) = None) \<and>
            c_gptQueries (task_closure t) = gptQueries s)"
proof -
  from run_keeps_one_at_a_time [OF mounted_one_at_a_time assms]
  have "one_at_a_time (s, ts)" .
  then show ?thesis
    by (auto simp: one_at_a_time_def)
qed

theorem at_most_one_submit_in_flight_witness:
  "run jupiter_services [Change ''Hello'', Click] mounted = Some (hello_loading, [hello_task]) \<and>
   length [hello_task] \<le> 1 \<and>
   status hello_loading = LOADING \<and>
   fire jupiter_services Click (hello_loading, [hello_task]) = None \<and>
   run jupiter_services [Change ''Hello'', Click, Click] mounted = None"
proof -
  have nt: "trim ''Hello'' \<noteq> []"
    by (simp add: trim_empty_iff js_whitespace_def)
  have r: "run jupiter_services [Change ''Hello'', Click] mounted = Some (hello_loading, [hello_task])"
    using nt
    by (simp add: mounted_def handlePromptChange_def submit_begin_def
        generateChatGPTResponse_def jupiter_services_def hello_loading_def hello_task_def)
  from at_most_one_submit_in_flight [OF r]
  have "length [hello_task] \<le> 1" and "status hello_loading = LOADING"
    and f: "fire jupiter_services Click (hello_loading, [hello_task]) = None"
    by simp_all
  moreover from r f
  have "run jupiter_services [Change ''Hello'', Click, Click] mounted = None"
    using nt
    by (simp add: mounted_def handlePromptChange_def submit_begin_def
        generateChatGPTResponse_def jupiter_services_def hello_loading_def hello_task_def)
  ultimately show ?thesis
    using r by simp
qed

section \<open>Properties of the video generator\<close>

subsection \<open>Scratch file names\<close>

lemma digit_char_value: "d < 10 \<Longrightarrow> of_char (digit_char d) = (48 + d :: nat)"
proof -
  assume "d < 10"
  then have "d \<in> {0, 1, 2, 3, 4, 5, 6, 7, 8, 9}" by auto
  then show ?thesis by (auto simp: digit_char_def)
qed

lemma nat_of_digits_snoc:
  "nat_of_digits (ds @ [c]) = 10 * nat_of_digits ds + (of_char c - 48)"
  by (simp add: nat_of_digits_def)

lemma nat_of_digits_str_nat: "nat_of_digits (str_nat n) = n"
proof (induction n rule: str_nat.induct)
  case (1 n)
  show ?case
  proof (cases "n < 10")
    case True
    then show ?thesis
      by (subst str_nat.simps) (simp add: nat_of_digits_def digit_char_value)
  next
    case False
    with 1 have "nat_of_digits (str_nat (n div 10)) = n div 10" by simp
    with False show ?thesis
      by (subst str_nat.simps) (simp add: nat_of_digits_snoc digit_char_value)
  qed
qed

lemma str_nat_inj: "str_nat a = str_nat b \<longleftrightarrow> a = b"
  by (metis nat_of_digits_str_nat)

lemma image_name_inj: "image_name i = image_name j \<longleftrightarrow> i = j"
  by (simp add: image_name_def str_nat_inj)

lemma audio_name_inj: "audio_name i = audio_name j \<longleftrightarrow> i = j"
  by (simp add: audio_name_def str_nat_inj)

lemma image_name_not_audio_name: "image_name i \<noteq> audio_name j"
  by (simp add: image_name_def audio_name_def)

lemma image_name_not_output: "image_name i \<noteq> output_path"
  by (simp add: image_name_def output_path_def)

lemma audio_name_not_output: "audio_name i \<noteq> output_path"
  by (simp add: audio_name_def output_path_def)

subsection \<open>The pieces of the pipeline, one call at a time\<close>

lemma fold_chunks: "fold (\<lambda>chunk written. written @ chunk) chunks acc = acc @ concat chunks"
  by (induction chunks arbitrary: acc) simp_all

lemma get_image_eq:
  "get_image out p w =
     (case images_generate out (length (calls w)) (image_kwargs p) of
        Inl e \<Rightarrow> Inl e
      | Inr d \<Rightarrow> first_url d,
      w\<lparr>calls := calls w @ [ImagesGenerate (image_kwargs p)]\<rparr>)"
  by (simp add: get_image_def and_then_def perform_def lift_def split: sum.splits)

lemma get_voiceover_url_eq:
  "get_voiceover_url out tx v w =
     (case requests_post out (length (calls w)) murf_url (murf_headers out) (murf_payload tx v) of
        Inl e \<Rightarrow> Inl e
      | Inr r \<Rightarrow> audioFile_of out r,
      w\<lparr>calls := calls w @ [Post murf_url (murf_headers out) (murf_payload tx v)]\<rparr>)"
  by (simp add: get_voiceover_url_def and_then_def perform_def lift_def split: sum.splits)

lemma make_pair_result: "fst (make_pair out item w) = pair_at out (length (calls w)) item"
  by (simp add: make_pair_def pair_at_def and_then_def lift_def get_image_eq
      get_voiceover_url_eq split: sum.splits)

lemma make_pair_files: "files (snd (make_pair out item w)) = files w"
  by (simp add: make_pair_def and_then_def lift_def get_image_eq get_voiceover_url_eq
      split: sum.splits)

lemma make_pair_calls_ok:
  "make_pair out item w = (Inr data, w1) \<Longrightarrow> calls w1 = calls w @ requests_for out item"
  by (auto simp: make_pair_def requests_for_def and_then_def lift_def get_image_eq
      get_voiceover_url_eq split: sum.splits)

lemma make_pair_calls:
  "\<exists>cs. calls (snd (make_pair out item w)) = calls w @ cs \<and> length cs \<le> 2"
  by (simp add: make_pair_def and_then_def lift_def get_image_eq get_voiceover_url_eq
      split: sum.splits)

lemma download_file_eq:
  "download_file out url name w =
     (case requests_get out (length (calls w)) url of
        Inl e \<Rightarrow> (Inl e, w\<lparr>calls := calls w @ [Get url]\<rparr>)
      | Inr r \<Rightarrow>
          (case raise_for_status r of
             Inl e \<Rightarrow> (Inl e, w\<lparr>calls := calls w @ [Get url]\<rparr>)
           | Inr _ \<Rightarrow> (Inr name, w\<lparr>calls := calls w @ [Get url],
                                   files := (files w)(name \<mapsto> stored r)\<rparr>)))"
  by (simp add: download_file_def and_then_def perform_def lift_def write_chunks_def
      fold_chunks stored_def split: sum.splits)

lemma make_clip_result:
  "fst (make_clip out data n w) = clip_at out (length (calls w)) n data"
  by (simp add: make_clip_def clip_at_def and_then_def lift_def download_file_eq
      AudioFileClip_def ImageClip_def set_audio_def image_name_not_audio_name
      split: sum.splits)

lemma make_clip_ok:
  assumes "make_clip out data n w = (Inr clip, w1)"
  shows "\<exists>ri ra.
           requests_get out (length (calls w)) (imageUrl data) = Inr ri \<and>
           requests_get out (length (calls w) + 1) (audioUrl data) = Inr ra \<and>
           calls w1 = calls w @ downloads_for data \<and>
           files w1 = (files w)(image_name n \<mapsto> stored ri, audio_name n \<mapsto> stored ra)"
  using assms
  by (auto simp: make_clip_def and_then_def lift_def download_file_eq downloads_for_def
      AudioFileClip_def ImageClip_def image_name_not_audio_name
      split: sum.splits option.splits)

lemma make_clip_frame:
  assumes "name \<noteq> image_name n" and "name \<noteq> audio_name n"
  shows "files (snd (make_clip out data n w)) name = files w name"
  using assms
  by (simp add: make_clip_def and_then_def lift_def download_file_eq
      AudioFileClip_def ImageClip_def split: sum.splits option.splits)

lemma make_clip_keeps_files: "dom (files w) \<subseteq> dom (files (snd (make_clip out data n w)))"
  by (auto simp: make_clip_def and_then_def lift_def download_file_eq
      AudioFileClip_def ImageClip_def split: sum.splits option.splits)

subsection \<open>The loop of get_ai_video\<close>

lemma ai_loop_files: "files (snd (get_ai_video_loop out items acc w)) = files w"
proof (induction items arbitrary: acc w)
  case Nil
  show ?case by simp
next
  case (Cons item rest)
  obtain r w1 where m: "make_pair out item w = (r, w1)"
    by fastforce
  from make_pair_files [of out item w] m have f: "files w1 = files w"
    by simp
  show ?case
  proof (cases r)
    case (Inl e)
    with m f show ?thesis by simp
  next
    case (Inr data)
    with m f Cons.IH [of "acc @ [data]" w1] show ?thesis by simp
  qed
qed

lemma ai_loop_ok:
  assumes "get_ai_video_loop out items acc w = (Inr data_list, w1)"
  shows "\<exists>new. data_list = acc @ new \<and> length new = length items \<and>
           calls w1 = calls w @ concat (map (requests_for out) items) \<and>
           (\<forall>i < length items. pair_at out (length (calls w) + 2 * i) (items ! i) = Inr (new ! i) \<and>
                                length (requests_for out (items ! i)) = 2)"
  using assms
proof (induction items arbitrary: acc w)
  case Nil
  then show ?case by simp
next
  case (Cons item rest)
  obtain r w2 where m: "make_pair out item w = (r, w2)"
    by fastforce
  with Cons.prems obtain data where r: "r = Inr data"
    by (cases r) simp_all
  from m r Cons.prems have rest: "get_ai_video_loop out rest (acc @ [data]) w2 = (Inr data_list, w1)"
    by simp
  from make_pair_result [of out item w] m r
  have head: "pair_at out (length (calls w)) item = Inr data"
    by simp
  from make_pair_calls_ok m r have c2: "calls w2 = calls w @ requests_for out item"
    by blast
  from head have two: "length (requests_for out item) = 2"
    by (auto simp: pair_at_def requests_for_def split: sum.splits)
  from Cons.IH [OF rest] obtain new where
    dl: "data_list = (acc @ [data]) @ new" and len: "length new = length rest"
    and cs: "calls w1 = calls w2 @ concat (map (requests_for out) rest)"
    and each: "\<forall>i < length rest.
        pair_at out (length (calls w2) + 2 * i) (rest ! i) = Inr (new ! i) \<and>
        length (requests_for out (rest ! i)) = 2"
    by blast
  have "\<forall>i < length (item # rest).
      pair_at out (length (calls w) + 2 * i) ((item # rest) ! i) = Inr ((data # new) ! i) \<and>
      length (requests_for out ((item # rest) ! i)) = 2"
  proof (intro allI impI)
    fix i
    assume i: "i < length (item # rest)"
    show "pair_at out (length (calls w) + 2 * i) ((item # rest) ! i) = Inr ((data # new) ! i) \<and>
          length (requests_for out ((item # rest) ! i)) = 2"
    proof (cases i)
      case 0
      with head two show ?thesis by simp
    next
      case (Suc j)
      with i have "j < length rest" by simp
      with each have "pair_at out (length (calls w2) + 2 * j) (rest ! j) = Inr (new ! j) \<and>
          length (requests_for out (rest ! j)) = 2"
        by blast
      moreover from c2 two have "length (calls w2) + 2 * j = length (calls w) + 2 * Suc j"
        by simp
      ultimately show ?thesis
        using Suc by simp
    qed
  qed
  moreover from dl have "data_list = acc @ (data # new)" by simp
  moreover from len have "length (data # new) = length (item # rest)" by simp
  moreover from cs c2 have "calls w1 = calls w @ concat (map (requests_for out) (item # rest))"
    by simp
  ultimately show ?case by blast
qed

lemma ai_loop_fails_at:
  assumes "i < length items"
    and "\<forall>j < i. \<exists>d. pair_at out (length (calls w) + 2 * j) (items ! j) = Inr d"
    and "pair_at out (length (calls w) + 2 * i) (items ! i) = Inl e"
  shows "\<exists>w1 cs. get_ai_video_loop out items acc w = (Inl e, w1) \<and>
           calls w1 = calls w @ concat (map (requests_for out) (take i items)) @ cs \<and>
           length cs \<le> 2"
  using assms
proof (induction items arbitrary: i acc w)
  case Nil
  then show ?case by simp
next
  case (Cons item rest)
  obtain r w2 where m: "make_pair out item w = (r, w2)"
    by fastforce
  from make_pair_result [of out item w] m
  have res: "r = pair_at out (length (calls w)) item"
    by simp
  show ?case
  proof (cases i)
    case 0
    with Cons.prems(3) res have r: "r = Inl e" by simp
    from make_pair_calls [of out item w] m obtain cs where
      "calls w2 = calls w @ cs" and "length cs \<le> 2"
      by auto
    with m r 0 show ?thesis by simp
  next
    case (Suc k)
    from Cons.prems(2) Suc have "\<exists>d. pair_at out (length (calls w) + 2 * 0) ((item # rest) ! 0) = Inr d"
      by blast
    with res obtain data where r: "r = Inr data" by auto
    from make_pair_calls_ok m r have c2: "calls w2 = calls w @ requests_for out item"
      by blast
    from res r have two: "length (requests_for out item) = 2"
      by (auto simp: pair_at_def requests_for_def split: sum.splits)
    from c2 two have t: "\<And>j. length (calls w2) + 2 * j = length (calls w) + 2 * Suc j"
      by simp
    from Cons.prems(1) Suc have k: "k < length rest" by simp
    have before: "\<forall>j < k. \<exists>d. pair_at out (length (calls w2) + 2 * j) (rest ! j) = Inr d"
    proof (intro allI impI)
      fix j assume "j < k"
      with Suc have "Suc j < i" by simp
      with Cons.prems(2) have "\<exists>d. pair_at out (length (calls w) + 2 * Suc j) ((item # rest) ! Suc j) = Inr d"
        by blast
      with t show "\<exists>d. pair_at out (length (calls w2) + 2 * j) (rest ! j) = Inr d"
        by simp
    qed
    from Cons.prems(3) Suc t have at: "pair_at out (length (calls w2) + 2 * k) (rest ! k) = Inl e"
      by simp
    from Cons.IH [OF k before at, of "acc @ [data]"] obtain w1 cs where
      "get_ai_video_loop out rest (acc @ [data]) w2 = (Inl e, w1)"
      and "calls w1 = calls w2 @ concat (map (requests_for out) (take k rest)) @ cs"
      and "length cs \<le> 2"
      by blast
    with m r c2 Suc show ?thesis by simp
  qed
qed

lemma voices_requested_append:
  "voices_requested (xs @ ys) = voices_requested xs @ voices_requested ys"
  by (simp add: voices_requested_def)

lemma make_pair_voices:
  "\<exists>n \<le> 1. voices_requested (calls (snd (make_pair out item w))) =
             voices_requested (calls w) @ map voice_of (take n [item]) \<and>
           (\<forall>d. fst (make_pair out item w) = Inr d \<longrightarrow> n = 1)"
proof (cases "\<exists>c. calls (snd (make_pair out item w)) =
    calls w @ [c, Post murf_url (murf_headers out)
      (murf_payload (case getitem item ''text'' of Inr x \<Rightarrow> x | Inl e \<Rightarrow> JNull) (voice_of item))]")
  case True
  then have "voices_requested (calls (snd (make_pair out item w))) =
      voices_requested (calls w) @ map voice_of (take 1 [item])"
    by (auto simp: make_pair_def and_then_def lift_def get_image_eq get_voiceover_url_eq
        voices_requested_def murf_payload_def voice_of_def split: sum.splits)
  then show ?thesis by blast
next
  case False
  then have "voices_requested (calls (snd (make_pair out item w))) =
      voices_requested (calls w) @ map voice_of (take 0 [item]) \<and>
      (\<forall>d. fst (make_pair out item w) \<noteq> Inr d)"
    by (auto simp: make_pair_def and_then_def lift_def get_image_eq get_voiceover_url_eq
        voices_requested_def murf_payload_def voice_of_def split: sum.splits)
  then show ?thesis by blast
qed

lemma ai_loop_voices:
  "\<exists>n \<le> length items.
     voices_requested (calls (snd (get_ai_video_loop out items acc w))) =
       voices_requested (calls w) @ map voice_of (take n items) \<and>
     (\<forall>d. fst (get_ai_video_loop out items acc w) = Inr d \<longrightarrow> n = length items)"
proof (induction items arbitrary: acc w)
  case Nil
  show ?case by simp
next
  case (Cons item rest)
  obtain r w2 where m: "make_pair out item w = (r, w2)"
    by fastforce
  from make_pair_voices [of out item w] m obtain n where n: "n \<le> 1"
    and v: "voices_requested (calls w2) = voices_requested (calls w) @ map voice_of (take n [item])"
    and ok: "\<forall>d. r = Inr d \<longrightarrow> n = 1"
    by auto
  show ?case
  proof (cases r)
    case (Inl e)
    from n have "n \<le> length (item # rest)" by simp
    moreover from v n have "voices_requested (calls w2) =
        voices_requested (calls w) @ map voice_of (take n (item # rest))"
      by (cases n) simp_all
    ultimately show ?thesis
      using m Inl by auto
  next
    case (Inr data)
    with ok have n1: "n = 1" by simp
    from Cons.IH [of "acc @ [data]" w2] obtain k where k: "k \<le> length rest"
      and vk: "voices_requested (calls (snd (get_ai_video_loop out rest (acc @ [data]) w2))) =
          voices_requested (calls w2) @ map voice_of (take k rest)"
      and okk: "\<forall>d. fst (get_ai_video_loop out rest (acc @ [data]) w2) = Inr d \<longrightarrow> k = length rest"
      by blast
    from k have "Suc k \<le> length (item # rest)" by simp
    moreover from vk v n1 m Inr
    have "voices_requested (calls (snd (get_ai_video_loop out (item # rest) acc w))) =
        voices_requested (calls w) @ map voice_of (take (Suc k) (item # rest))"
      by simp
    moreover from okk m Inr
    have "\<forall>d. fst (get_ai_video_loop out (item # rest) acc w) = Inr d \<longrightarrow>
        Suc k = length (item # rest)"
      by simp
    ultimately show ?thesis by blast
  qed
qed

subsection \<open>The loop of get_final_video\<close>

lemma final_loop_keeps_files:
  "dom (files w) \<subseteq> dom (files (snd (get_final_video_loop out ds n acc w)))"
proof (induction ds arbitrary: n acc w)
  case Nil
  show ?case by simp
next
  case (Cons data rest)
  obtain r w1 where m: "make_clip out data n w = (r, w1)"
    by fastforce
  from make_clip_keeps_files [of w out data n] m have sub: "dom (files w) \<subseteq> dom (files w1)"
    by simp
  show ?case
  proof (cases r)
    case (Inl e)
    with m sub show ?thesis by simp
  next
    case (Inr clip)
    have "dom (files w1) \<subseteq>
        dom (files (snd (get_final_video_loop out rest (n + 1) (acc @ [clip]) w1)))"
      by (rule Cons.IH)
    with sub m Inr show ?thesis
      by auto
  qed
qed

lemma final_loop_frame:
  assumes "\<forall>j. n \<le> j \<longrightarrow> name \<noteq> image_name j \<and> name \<noteq> audio_name j"
  shows "files (snd (get_final_video_loop out ds n acc w)) name = files w name"
  using assms
proof (induction ds arbitrary: n acc w)
  case Nil
  show ?case by simp
next
  case (Cons data rest)
  obtain r w1 where m: "make_clip out data n w = (r, w1)"
    by fastforce
  from Cons.prems have "name \<noteq> image_name n" and "name \<noteq> audio_name n"
    by simp_all
  from make_clip_frame [OF this, of out data w] m have f: "files w1 name = files w name"
    by simp
  show ?case
  proof (cases r)
    case (Inl e)
    with m f show ?thesis by simp
  next
    case (Inr clip)
    from Cons.prems have "\<forall>j. n + 1 \<le> j \<longrightarrow> name \<noteq> image_name j \<and> name \<noteq> audio_name j"
      by simp
    then have "files (snd (get_final_video_loop out rest (n + 1) (acc @ [clip]) w1)) name =
        files w1 name"
      by (rule Cons.IH)
    with f m Inr show ?thesis
      by simp
  qed
qed

lemma final_loop_ok:
  assumes "get_final_video_loop out ds n acc w = (Inr clips, w1)"
  shows "\<exists>new. clips = acc @ new \<and> length new = length ds \<and>
           calls w1 = calls w @ concat (map downloads_for ds) \<and>
           (\<forall>i < length ds. clip_at out (length (calls w) + 2 * i) (n + i) (ds ! i) = Inr (new ! i)) \<and>
           dom (files w1) = dom (files w) \<union> image_name ` {n..<n + length ds}
                                          \<union> audio_name ` {n..<n + length ds}"
  using assms
proof (induction ds arbitrary: n acc w)
  case Nil
  then show ?case by simp
next
  case (Cons data rest)
  obtain r w2 where m: "make_clip out data n w = (r, w2)"
    by fastforce
  with Cons.prems obtain clip where r: "r = Inr clip"
    by (cases r) simp_all
  from m r Cons.prems
  have rest: "get_final_video_loop out rest (n + 1) (acc @ [clip]) w2 = (Inr clips, w1)"
    by simp
  from make_clip_result [of out data n w] m r
  have head: "clip_at out (length (calls w)) n data = Inr clip"
    by simp
  from m r make_clip_ok obtain ri ra where
    c2: "calls w2 = calls w @ downloads_for data"
    and f2: "files w2 = (files w)(image_name n \<mapsto> stored ri, audio_name n \<mapsto> stored ra)"
    by blast
  from c2 have t: "\<And>j. length (calls w2) + 2 * j = length (calls w) + 2 * Suc j"
    by (simp add: downloads_for_def)
  from Cons.IH [OF rest] obtain new where
    cl: "clips = (acc @ [clip]) @ new" and len: "length new = length rest"
    and cs: "calls w1 = calls w2 @ concat (map downloads_for rest)"
    and each: "\<forall>i < length rest.
        clip_at out (length (calls w2) + 2 * i) (n + 1 + i) (rest ! i) = Inr (new ! i)"
    and d: "dom (files w1) = dom (files w2) \<union> image_name ` {n + 1..<n + 1 + length rest}
                                            \<union> audio_name ` {n + 1..<n + 1 + length rest}"
    by blast
  have "\<forall>i < length (data # rest).
      clip_at out (length (calls w) + 2 * i) (n + i) ((data # rest) ! i) = Inr ((clip # new) ! i)"
  proof (intro allI impI)
    fix i
    assume i: "i < length (data # rest)"
    show "clip_at out (length (calls w) + 2 * i) (n + i) ((data # rest) ! i) = Inr ((clip # new) ! i)"
    proof (cases i)
      case 0
      with head show ?thesis by simp
    next
      case (Suc j)
      with i have "j < length rest" by simp
      with each have "clip_at out (length (calls w2) + 2 * j) (n + 1 + j) (rest ! j) = Inr (new ! j)"
        by blast
      with t Suc show ?thesis by simp
    qed
  qed
  moreover from cl have "clips = acc @ (clip # new)" by simp
  moreover from len have "length (clip # new) = length (data # rest)" by simp
  moreover from cs c2 have "calls w1 = calls w @ concat (map downloads_for (data # rest))"
    by simp
  moreover have "dom (files w1) = dom (files w) \<union> image_name ` {n..<n + length (data # rest)}
                                                \<union> audio_name ` {n..<n + length (data # rest)}"
  proof -
    have "{n..<n + length (data # rest)} = insert n {n + 1..<n + 1 + length rest}"
      by auto
    with d f2 show ?thesis by auto
  qed
  ultimately show ?case by blast
qed

subsection \<open>get_final_video and get_ai_video as a whole\<close>

lemma last_cumsum: "last (cumsum acc (x # xs)) = acc + x + sum_list xs"
  by (induction xs arbitrary: acc x) simp_all

lemma concatenate_videoclips_ok:
  assumes "concatenate_videoclips clips = Inr final"
  shows "segments final = clips \<and> clips \<noteq> [] \<and>
         total_duration final = sum_list (map duration clips)"
  using assms
  by (auto simp: concatenate_videoclips_def Let_def last_cumsum simp del: cumsum.simps
      split: if_splits)

lemma get_final_video_eq:
  "get_final_video out data_list w =
     (case get_final_video_loop out data_list 0 [] w of
        (Inl e, w1) \<Rightarrow> (Inl e, w1)
      | (Inr clips, w1) \<Rightarrow>
          (case concatenate_videoclips clips of
             Inl e \<Rightarrow> (Inl e, w1)
           | Inr final \<Rightarrow>
               (case encode out final 24 ''libx264'' of
                  Inl e \<Rightarrow> (Inl e, w1)
                | Inr u \<Rightarrow> (Inr \<lparr>path = output_path, media_type = ''video/mp4''\<rparr>,
                            w1\<lparr>files := (files w1)(output_path \<mapsto> Movie final 24 ''libx264'')\<rparr>))))"
  by (simp add: get_final_video_def and_then_def lift_def write_videofile_def
      split: sum.splits prod.splits)

lemma get_final_video_ok:
  assumes "get_final_video out data_list w = (Inr res, w')"
  shows "\<exists>final.
           files w' output_path = Some (Movie final 24 ''libx264'') \<and>
           length (segments final) = length data_list \<and>
           data_list \<noteq> [] \<and>
           (\<forall>i < length data_list.
              clip_at out (length (calls w) + 2 * i) i (data_list ! i) = Inr (segments final ! i)) \<and>
           total_duration final = sum_list (map duration (segments final)) \<and>
           calls w' = calls w @ concat (map downloads_for data_list) \<and>
           dom (files w') = dom (files w) \<union> scratch_names (length data_list) \<union> {output_path} \<and>
           res = \<lparr>path = output_path, media_type = ''video/mp4''\<rparr>"
proof -
  obtain r w1 where l: "get_final_video_loop out data_list 0 [] w = (r, w1)"
    by fastforce
  with assms obtain clips where r: "r = Inr clips"
    by (cases r) (simp_all add: get_final_video_eq)
  from assms l r obtain final where c: "concatenate_videoclips clips = Inr final"
    by (cases "concatenate_videoclips clips") (simp_all add: get_final_video_eq)
  from assms l r c have w': "w' = w1\<lparr>files := (files w1)(output_path \<mapsto> Movie final 24 ''libx264'')\<rparr>"
    and res: "res = \<lparr>path = output_path, media_type = ''video/mp4''\<rparr>"
    by (auto simp: get_final_video_eq split: sum.splits)
  from l r final_loop_ok [of out data_list 0 "[]" w clips w1]
  have len: "length clips = length data_list"
    and cs: "calls w1 = calls w @ concat (map downloads_for data_list)"
    and each: "\<forall>i < length data_list.
        clip_at out (length (calls w) + 2 * i) i (data_list ! i) = Inr (clips ! i)"
    and d: "dom (files w1) = dom (files w) \<union> image_name ` {0..<length data_list}
                                          \<union> audio_name ` {0..<length data_list}"
    by auto
  from concatenate_videoclips_ok [OF c]
  have seg: "segments final = clips" and ne: "clips \<noteq> []"
    and tot: "total_duration final = sum_list (map duration clips)"
    by simp_all
  from ne len have "data_list \<noteq> []" by auto
  moreover from w' have "files w' output_path = Some (Movie final 24 ''libx264'')" by simp
  moreover from w' d have "dom (files w') =
      dom (files w) \<union> scratch_names (length data_list) \<union> {output_path}"
    by (auto simp: scratch_names_def)
  moreover from w' cs have "calls w' = calls w @ concat (map downloads_for data_list)" by simp
  ultimately show ?thesis
    using seg len each tot res by auto
qed

lemma get_final_video_keeps_files:
  "dom (files w) \<subseteq> dom (files (snd (get_final_video out data_list w)))"
proof -
  obtain r w1 where l: "get_final_video_loop out data_list 0 [] w = (r, w1)"
    by fastforce
  from final_loop_keeps_files [of w out data_list 0 "[]"] l
  have "dom (files w) \<subseteq> dom (files w1)" by simp
  with l show ?thesis
    by (auto simp: get_final_video_eq split: sum.splits)
qed

lemma get_script_eq:
  "get_script out p w =
     (case chat_completions_create out (length (calls w)) (script_kwargs p) of
        Inl e \<Rightarrow> Inl e
      | Inr res_choices \<Rightarrow>
          (case first res_choices of Inl e \<Rightarrow> Inl e | Inr json_str \<Rightarrow> loads out json_str),
      w\<lparr>calls := calls w @ [ChatCompletionsCreate (script_kwargs p)]\<rparr>)"
  by (simp add: get_script_def and_then_def perform_def lift_def split: sum.splits)

lemma get_ai_video_eq:
  assumes "get_script out p w = (Inr script, wa)"
    and "getitem script ''script'' = Inr script_arr"
    and "iter script_arr = Inr items"
  shows "get_ai_video out p w =
     (case get_ai_video_loop out items [] wa of
        (Inl e, wb) \<Rightarrow> (Inl e, wb)
      | (Inr data_list, wb) \<Rightarrow> get_final_video out data_list wb)"
  using assms
  by (simp add: get_ai_video_def and_then_def lift_def split: sum.splits prod.splits)

text \<open>
  C1. Take a run in which \<open>get_script\<close> has returned a script whose \<open>script\<close> entry is
  an array of \<open>k\<close> items. The clip-assembly loop either raises, and then \<open>get_ai_video\<close>
  raises the same error, or it produces exactly \<open>k\<close> media pairs, the \<open>i\<close>-th one made
  from the \<open>i\<close>-th item (its image request is call \<open>2i\<close> of the loop, its voice request
  call \<open>2i + 1\<close>). \<open>get_final_video\<close> then either raises, and \<open>get_ai_video\<close> with it, or
  writes a video of exactly \<open>k\<close> segments, the \<open>i\<close>-th one built from the \<open>i\<close>-th pair.
  No run ends with a number of pairs or of segments other than \<open>k\<close>.
\<close>

theorem pairs_and_segments_match_script:
  assumes "get_script out p w = (Inr script, wa)"
    and "getitem script ''script'' = Inr (JArray items)"
  shows "(\<forall>e wb. get_ai_video_loop out items [] wa = (Inl e, wb) \<longrightarrow>
            get_ai_video out p w = (Inl e, wb)) \<and>
         (\<forall>data_list wb. get_ai_video_loop out items [] wa = (Inr data_list, wb) \<longrightarrow>
            length data_list = length items \<and>
            (\<forall>i < length items.
               pair_at out (length (calls wa) + 2 * i) (items ! i) = Inr (data_list ! i)) \<and>
            (\<forall>e w'. get_final_video out data_list wb = (Inl e, w') \<longrightarrow>
               get_ai_video out p w = (Inl e, w')) \<and>
            (\<forall>res w'. get_final_video out data_list wb = (Inr res, w') \<longrightarrow>
               get_ai_video out p w = (Inr res, w') \<and>
               (\<exists>final.
                  files w' output_path = Some (Movie final 24 ''libx264'') \<and>
                  length (segments final) = length items \<and>
                  (\<forall>i < length items.
                     clip_at out (length (calls wb) + 2 * i) i (data_list ! i) =
                       Inr (segments final ! i)))))"
proof -
  have it: "iter (JArray items) = Inr items" by simp
  note whole = get_ai_video_eq [OF assms it]
  have fail: "\<forall>e wb. get_ai_video_loop out items [] wa = (Inl e, wb) \<longrightarrow>
      get_ai_video out p w = (Inl e, wb)"
    by (simp add: whole)
  have ok: "\<forall>data_list wb. get_ai_video_loop out items [] wa = (Inr data_list, wb) \<longrightarrow>
      length data_list = length items \<and>
      (\<forall>i < length items.
         pair_at out (length (calls wa) + 2 * i) (items ! i) = Inr (data_list ! i)) \<and>
      (\<forall>e w'. get_final_video out data_list wb = (Inl e, w') \<longrightarrow>
         get_ai_video out p w = (Inl e, w')) \<and>
      (\<forall>res w'. get_final_video out data_list wb = (Inr res, w') \<longrightarrow>
         get_ai_video out p w = (Inr res, w') \<and>
         (\<exists>final.
            files w' output_path = Some (Movie final 24 ''libx264'') \<and>
            length (segments final) = length items \<and>
            (\<forall>i < length items.
               clip_at out (length (calls wb) + 2 * i) i (data_list ! i) =
                 Inr (segments final ! i))))"
  proof (intro allI impI)
    fix data_list wb
    assume loop: "get_ai_video_loop out items [] wa = (Inr data_list, wb)"
    from ai_loop_ok [OF loop] have len: "length data_list = length items"
      and each: "\<forall>i < length items.
         pair_at out (length (calls wa) + 2 * i) (items ! i) = Inr (data_list ! i)"
      by auto
    have vf: "\<forall>e w'. get_final_video out data_list wb = (Inl e, w') \<longrightarrow>
         get_ai_video out p w = (Inl e, w')"
      by (simp add: whole loop)
    have vk: "\<forall>res w'. get_final_video out data_list wb = (Inr res, w') \<longrightarrow>
         get_ai_video out p w = (Inr res, w') \<and>
         (\<exists>final.
            files w' output_path = Some (Movie final 24 ''libx264'') \<and>
            length (segments final) = length items \<and>
            (\<forall>i < length items.
               clip_at out (length (calls wb) + 2 * i) i (data_list ! i) =
                 Inr (segments final ! i)))"
    proof (intro allI impI)
      fix res w'
      assume v: "get_final_video out data_list wb = (Inr res, w')"
      from get_final_video_ok [OF v] len obtain final where
        "files w' output_path = Some (Movie final 24 ''libx264'')"
        and "length (segments final) = length items"
        and "\<forall>i < length items.
               clip_at out (length (calls wb) + 2 * i) i (data_list ! i) = Inr (segments final ! i)"
        by auto
      moreover from v have "get_ai_video out p w = (Inr res, w')"
        by (simp add: whole loop)
      ultimately show "get_ai_video out p w = (Inr res, w') \<and>
         (\<exists>final.
            files w' output_path = Some (Movie final 24 ''libx264'') \<and>
            length (segments final) = length items \<and>
            (\<forall>i < length items.
               clip_at out (length (calls wb) + 2 * i) i (data_list ! i) =
                 Inr (segments final ! i)))"
        by blast
    qed
    from len each vf vk
    show "length data_list = length items \<and>
      (\<forall>i < length items.
         pair_at out (length (calls wa) + 2 * i) (items ! i) = Inr (data_list ! i)) \<and>
      (\<forall>e w'. get_final_video out data_list wb = (Inl e, w') \<longrightarrow>
         get_ai_video out p w = (Inl e, w')) \<and>
      (\<forall>res w'. get_final_video out data_list wb = (Inr res, w') \<longrightarrow>
         get_ai_video out p w = (Inr res, w') \<and>
         (\<exists>final.
            files w' output_path = Some (Movie final 24 ''libx264'') \<and>
            length (segments final) = length items \<and>
            (\<forall>i < length items.
               clip_at out (length (calls wb) + 2 * i) i (data_list ! i) =
                 Inr (segments final ! i))))"
      by blast
  qed
  from fail ok show ?thesis by blast
qed

subsection \<open>The run on the Sahara script\<close>

lemmas pipeline_defs =
  get_ai_video_def get_script_def get_image_def get_voiceover_url_def get_final_video_def
  make_pair_def make_clip_def download_file_def write_chunks_def raise_for_status_def
  AudioFileClip_def ImageClip_def set_audio_def concatenate_videoclips_def
  write_videofile_def and_then_def perform_def lift_def first_def first_url_def loads_def
  audioFile_of_def image_name_def audio_name_def output_path_def py_int_def
  str_nat.simps digit_char_def

lemmas studio_defs =
  studio_def refusing_def known_json_def sahara_reply_def mixed_reply_def foo_reply_def
  murf_body_def sahara_items_def mixed_items_def empty_world_def

lemma sahara_script_run:
  "get_script (studio sahara_reply chunks) ''Sahara'' empty_world =
     (Inr (JObject [(''script'', JArray sahara_items)]),
      \<lparr>calls = [ChatCompletionsCreate (script_kwargs ''Sahara'')], files = Map.empty\<rparr>)"
  by (simp add: pipeline_defs studio_defs)

lemma sahara_loop_run:
  "get_ai_video_loop (studio sahara_reply chunks) sahara_items []
     \<lparr>calls = [ChatCompletionsCreate (script_kwargs ''Sahara'')], files = Map.empty\<rparr> =
     (Inr sahara_pairs,
      \<lparr>calls = ChatCompletionsCreate (script_kwargs ''Sahara'') #
                concat (map (requests_for (studio sahara_reply chunks)) sahara_items),
       files = Map.empty\<rparr>)"
  by (simp add: pipeline_defs studio_defs sahara_pairs_def requests_for_def)

lemma sahara_video_run:
  "get_final_video (studio sahara_reply [''ab'', ''cd'']) sahara_pairs
     \<lparr>calls = cs, files = Map.empty\<rparr> =
     (Inr \<lparr>path = ''output_video.mp4'', media_type = ''video/mp4''\<rparr>,
      \<lparr>calls = cs @ concat (map downloads_for sahara_pairs),
       files = [''image_0.png'' \<mapsto> Bytes ''abcd'', ''audio_0.wav'' \<mapsto> Bytes ''abcd'',
                ''image_1.png'' \<mapsto> Bytes ''abcd'', ''audio_1.wav'' \<mapsto> Bytes ''abcd'',
                ''output_video.mp4'' \<mapsto> sahara_movie]\<rparr>)"
  by (simp add: pipeline_defs studio_defs sahara_pairs_def sahara_movie_def
      sahara_segments_def downloads_for_def)

lemma sahara_whole_run:
  "get_ai_video (studio sahara_reply [''ab'', ''cd'']) ''Sahara'' empty_world =
     (Inr \<lparr>path = ''output_video.mp4'', media_type = ''video/mp4''\<rparr>,
      \<lparr>calls = (ChatCompletionsCreate (script_kwargs ''Sahara'') #
                 concat (map (requests_for (studio sahara_reply [''ab'', ''cd''])) sahara_items)) @
                concat (map downloads_for sahara_pairs),
       files = [''image_0.png'' \<mapsto> Bytes ''abcd'', ''audio_0.wav'' \<mapsto> Bytes ''abcd'',
                ''image_1.png'' \<mapsto> Bytes ''abcd'', ''audio_1.wav'' \<mapsto> Bytes ''abcd'',
                ''output_video.mp4'' \<mapsto> sahara_movie]\<rparr>)"
proof -
  have g: "getitem (JObject [(''script'', JArray sahara_items)]) ''script'' = Inr (JArray sahara_items)"
    by simp
  have i: "iter (JArray sahara_items) = Inr sahara_items"
    by simp
  show ?thesis
    by (simp only: get_ai_video_eq [OF sahara_script_run g i] sahara_loop_run
        sahara_video_run prod.case sum.case)
qed

theorem pairs_and_segments_match_script_witness:
  "get_script (studio sahara_reply [''ab'', ''cd'']) ''Sahara'' empty_world =
     (Inr (JObject [(''script'', JArray sahara_items)]),
      \<lparr>calls = [ChatCompletionsCreate (script_kwargs ''Sahara'')], files = Map.empty\<rparr>) \<and>
   getitem (JObject [(''script'', JArray sahara_items)]) ''script'' = Inr (JArray sahara_items) \<and>
   length sahara_items = 2 \<and>
   length sahara_pairs = length sahara_items \<and>
   fst (get_ai_video (studio sahara_reply [''ab'', ''cd'']) ''Sahara'' empty_world) =
     Inr \<lparr>path = ''output_video.mp4'', media_type = ''video/mp4''\<rparr> \<and>
   (\<exists>final.
      files (snd (get_ai_video (studio sahara_reply [''ab'', ''cd'']) ''Sahara'' empty_world))
        output_path = Some (Movie final 24 ''libx264'') \<and>
      length (segments final) = length sahara_items)"
proof -
  have g: "getitem (JObject [(''script'', JArray sahara_items)]) ''script'' = Inr (JArray sahara_items)"
    by simp
  note claim = pairs_and_segments_match_script [OF sahara_script_run g, of "[''ab'', ''cd'']"]
  note pairs = claim [THEN conjunct2, rule_format, OF sahara_loop_run]
  note len = pairs [THEN conjunct1]
  note video = pairs [THEN conjunct2, THEN conjunct2, THEN conjunct2, rule_format,
      OF sahara_video_run]
  let ?W = "\<lparr>calls = (ChatCompletionsCreate (script_kwargs ''Sahara'') #
                  concat (map (requests_for (studio sahara_reply [''ab'', ''cd''])) sahara_items)) @
                 concat (map downloads_for sahara_pairs),
        files = [''image_0.png'' \<mapsto> Bytes ''abcd'', ''audio_0.wav'' \<mapsto> Bytes ''abcd'',
                 ''image_1.png'' \<mapsto> Bytes ''abcd'', ''audio_1.wav'' \<mapsto> Bytes ''abcd'',
                 ''output_video.mp4'' \<mapsto> sahara_movie]\<rparr>"
  note run = video [THEN conjunct1]
  from video [THEN conjunct2] obtain final where
    f: "files ?W output_path = Some (Movie final 24 ''libx264'')"
    and s: "length (segments final) = length sahara_items"
    by (elim conjE exE)
  have sw: "snd (get_ai_video (studio sahara_reply [''ab'', ''cd'']) ''Sahara'' empty_world) = ?W"
    by (simp only: run snd_conv)
  have l2: "length sahara_items = 2"
    by (simp add: sahara_items_def)
  have "fst (get_ai_video (studio sahara_reply [''ab'', ''cd'']) ''Sahara'' empty_world) =
     Inr \<lparr>path = ''output_video.mp4'', media_type = ''video/mp4''\<rparr>"
    by (simp only: run fst_conv)
  moreover have "\<exists>final.
      files (snd (get_ai_video (studio sahara_reply [''ab'', ''cd'']) ''Sahara'' empty_world))
        output_path = Some (Movie final 24 ''libx264'') \<and>
      length (segments final) = length sahara_items"
    unfolding sw using f s by (intro exI conjI)
  ultimately show ?thesis
    using sahara_script_run [of "[''ab'', ''cd'']"] g l2 len by (intro conjI)
qed

subsection \<open>Durations\<close>

lemma clip_at_ok:
  assumes "clip_at out t n data = Inr seg"
  shows "\<exists>ra d. requests_get out (t + 1) (audioUrl data) = Inr ra \<and>
                read_audio out (stored ra) = Inr d \<and>
                seg = \<lparr>image_filename = image_name n, duration = py_int d + 1,
                       audio = Some \<lparr>audio_filename = audio_name n, audio_duration = d\<rparr>\<rparr>"
  using assms by (auto simp: clip_at_def split: sum.splits)

text \<open>
  C2. In a video that \<open>get_final_video\<close> has written, the \<open>i\<close>-th segment carries the
  audio clip read from the file downloaded for the \<open>i\<close>-th pair's audio URL, and is
  shown for the whole seconds of that clip's duration plus one; the duration of the
  whole video is the sum of these over all segments. (A decoder reports no negative
  duration; \<open>int\<close> cuts towards zero, which is the floor from zero upwards.)
\<close>

theorem segment_duration_is_floor_plus_one:
  assumes "get_final_video out data_list w = (Inr res, w')"
    and "\<forall>f d. read_audio out f = Inr d \<longrightarrow> 0 \<le> d"
  shows "\<exists>final.
           files w' output_path = Some (Movie final 24 ''libx264'') \<and>
           length (segments final) = length data_list \<and>
           (\<forall>i < length data_list. \<exists>ra d.
              requests_get out (length (calls w) + 2 * i + 1) (audioUrl (data_list ! i)) = Inr ra \<and>
              read_audio out (stored ra) = Inr d \<and>
              audio (segments final ! i) = Some \<lparr>audio_filename = audio_name i, audio_duration = d\<rparr> \<and>
              duration (segments final ! i) = \<lfloor>d\<rfloor> + 1) \<and>
           total_duration final = (\<Sum>seg\<leftarrow>segments final. \<lfloor>narration_seconds seg\<rfloor> + 1)"
proof -
  from get_final_video_ok [OF assms(1)] obtain final where
    f: "files w' output_path = Some (Movie final 24 ''libx264'')"
    and len: "length (segments final) = length data_list"
    and each: "\<forall>i < length data_list.
        clip_at out (length (calls w) + 2 * i) i (data_list ! i) = Inr (segments final ! i)"
    and tot: "total_duration final = sum_list (map duration (segments final))"
    by blast
  have seg: "\<exists>ra d.
      requests_get out (length (calls w) + 2 * i + 1) (audioUrl (data_list ! i)) = Inr ra \<and>
      read_audio out (stored ra) = Inr d \<and>
      audio (segments final ! i) = Some \<lparr>audio_filename = audio_name i, audio_duration = d\<rparr> \<and>
      duration (segments final ! i) = \<lfloor>d\<rfloor> + 1" if i: "i < length data_list" for i
  proof -
    from each i have "clip_at out (length (calls w) + 2 * i) i (data_list ! i) = Inr (segments final ! i)"
      by blast
    from clip_at_ok [OF this] obtain ra d where
      ra: "requests_get out (length (calls w) + 2 * i + 1) (audioUrl (data_list ! i)) = Inr ra"
      and d: "read_audio out (stored ra) = Inr d"
      and s: "segments final ! i = \<lparr>image_filename = image_name i, duration = py_int d + 1,
                audio = Some \<lparr>audio_filename = audio_name i, audio_duration = d\<rparr>\<rparr>"
      by blast
    from assms(2) d have "0 \<le> d" by blast
    then have "py_int d = \<lfloor>d\<rfloor>" by (simp add: py_int_def)
    with s have "audio (segments final ! i) = Some \<lparr>audio_filename = audio_name i, audio_duration = d\<rparr>"
      and "duration (segments final ! i) = \<lfloor>d\<rfloor> + 1"
      by simp_all
    with ra d show ?thesis by blast
  qed
  have "duration s = \<lfloor>narration_seconds s\<rfloor> + 1" if "s \<in> set (segments final)" for s
  proof -
    from that len obtain i where i: "i < length data_list" and s: "s = segments final ! i"
      by (auto simp: in_set_conv_nth)
    from seg [OF i] s show ?thesis
      by (auto simp: narration_seconds_def)
  qed
  then have "map duration (segments final) =
      map (\<lambda>seg. \<lfloor>narration_seconds seg\<rfloor> + 1) (segments final)"
    by simp
  with tot have "total_duration final = (\<Sum>seg\<leftarrow>segments final. \<lfloor>narration_seconds seg\<rfloor> + 1)"
    by simp
  with f len seg show ?thesis by blast
qed

theorem segment_duration_is_floor_plus_one_witness:
  "get_final_video (studio sahara_reply [''ab'', ''cd'']) sahara_pairs empty_world =
     (Inr \<lparr>path = ''output_video.mp4'', media_type = ''video/mp4''\<rparr>,
      \<lparr>calls = [] @ concat (map downloads_for sahara_pairs),
       files = [''image_0.png'' \<mapsto> Bytes ''abcd'', ''audio_0.wav'' \<mapsto> Bytes ''abcd'',
                ''image_1.png'' \<mapsto> Bytes ''abcd'', ''audio_1.wav'' \<mapsto> Bytes ''abcd'',
                ''output_video.mp4'' \<mapsto> sahara_movie]\<rparr>) \<and>
   read_audio (studio sahara_reply [''ab'', ''cd'']) (Bytes ''abcd'') = Inr (5 / 2) \<and>
   map duration sahara_segments = [\<lfloor>5 / 2 :: real\<rfloor> + 1, \<lfloor>5 / 2 :: real\<rfloor> + 1] \<and>
   (\<exists>final. sahara_movie = Movie final 24 ''libx264'' \<and>
             length (segments final) = 2 \<and>
             total_duration final = (\<Sum>seg\<leftarrow>segments final. \<lfloor>narration_seconds seg\<rfloor> + 1))"
proof -
  have run: "get_final_video (studio sahara_reply [''ab'', ''cd'']) sahara_pairs empty_world =
     (Inr \<lparr>path = ''output_video.mp4'', media_type = ''video/mp4''\<rparr>,
      \<lparr>calls = [] @ concat (map downloads_for sahara_pairs),
       files = [''image_0.png'' \<mapsto> Bytes ''abcd'', ''audio_0.wav'' \<mapsto> Bytes ''abcd'',
                ''image_1.png'' \<mapsto> Bytes ''abcd'', ''audio_1.wav'' \<mapsto> Bytes ''abcd'',
                ''output_video.mp4'' \<mapsto> sahara_movie]\<rparr>)"
    unfolding empty_world_def by (rule sahara_video_run)
  have pos: "\<forall>f d. read_audio (studio sahara_reply [''ab'', ''cd'']) f = Inr d \<longrightarrow> 0 \<le> d"
    by (simp add: studio_def)
  from segment_duration_is_floor_plus_one [OF run pos] obtain final where
    f: "files \<lparr>calls = [] @ concat (map downloads_for sahara_pairs),
       files = [''image_0.png'' \<mapsto> Bytes ''abcd'', ''audio_0.wav'' \<mapsto> Bytes ''abcd'',
                ''image_1.png'' \<mapsto> Bytes ''abcd'', ''audio_1.wav'' \<mapsto> Bytes ''abcd'',
                ''output_video.mp4'' \<mapsto> sahara_movie]\<rparr> output_path =
          Some (Movie final 24 ''libx264'')"
    and l: "length (segments final) = length sahara_pairs"
    and t: "total_duration final = (\<Sum>seg\<leftarrow>segments final. \<lfloor>narration_seconds seg\<rfloor> + 1)"
    by (elim conjE exE)
  from f have m: "sahara_movie = Movie final 24 ''libx264''"
    by (simp add: output_path_def)
  from l have l2: "length (segments final) = 2"
    by (simp add: sahara_pairs_def)
  have d: "map duration sahara_segments = [\<lfloor>5 / 2 :: real\<rfloor> + 1, \<lfloor>5 / 2 :: real\<rfloor> + 1]"
    by (simp add: sahara_segments_def)
  from m l2 t have "\<exists>final. sahara_movie = Movie final 24 ''libx264'' \<and>
             length (segments final) = 2 \<and>
             total_duration final = (\<Sum>seg\<leftarrow>segments final. \<lfloor>narration_seconds seg\<rfloor> + 1)"
    by (intro exI conjI)
  moreover have "read_audio (studio sahara_reply [''ab'', ''cd'']) (Bytes ''abcd'') = Inr (5 / 2)"
    by (simp add: studio_def)
  ultimately show ?thesis
    using run d by (intro conjI)
qed

subsection \<open>Voices\<close>

lemma make_clip_voices:
  "voices_requested (calls (snd (make_clip out data n w))) = voices_requested (calls w)"
  by (simp add: make_clip_def and_then_def lift_def download_file_eq AudioFileClip_def
      ImageClip_def voices_requested_def split: sum.splits option.splits)

lemma final_loop_voices:
  "voices_requested (calls (snd (get_final_video_loop out ds n acc w))) =
     voices_requested (calls w)"
proof (induction ds arbitrary: n acc w)
  case Nil
  show ?case by simp
next
  case (Cons data rest)
  obtain r w1 where m: "make_clip out data n w = (r, w1)"
    by fastforce
  from make_clip_voices [of out data n w] m
  have v: "voices_requested (calls w1) = voices_requested (calls w)"
    by simp
  show ?case
  proof (cases r)
    case (Inl e)
    with m v show ?thesis by simp
  next
    case (Inr clip)
    have "voices_requested (calls (snd (get_final_video_loop out rest (n + 1) (acc @ [clip]) w1))) =
        voices_requested (calls w1)"
      by (rule Cons.IH)
    with m v Inr show ?thesis by simp
  qed
qed

lemma get_final_video_voices:
  "voices_requested (calls (snd (get_final_video out data_list w))) = voices_requested (calls w)"
proof -
  obtain r w1 where l: "get_final_video_loop out data_list 0 [] w = (r, w1)"
    by fastforce
  from final_loop_voices [of out data_list 0 "[]" w] l
  have "voices_requested (calls w1) = voices_requested (calls w)"
    by simp
  with l show ?thesis
    by (auto simp: get_final_video_eq split: sum.splits)
qed

text \<open>
  C4 (as amended). Nothing between \<open>get_script\<close> and the voice service looks at the
  voiceIds: in a run over a script array, the voiceIds that are sent to Murf are, in
  order, the voiceIds of the first \<open>n\<close> items exactly as the language model wrote
  them, where \<open>n\<close> is the number of items whose voice request was reached, and \<open>n\<close> is
  the whole script when the run returns a video. One voice is used only if the script
  names only one.
\<close>

theorem voice_ids_are_sent_as_written:
  assumes "get_script out p w = (Inr script, wa)"
    and "getitem script ''script'' = Inr (JArray items)"
  shows "\<exists>n \<le> length items.
           voices_requested (calls (snd (get_ai_video out p w))) =
             voices_requested (calls w) @ map voice_of (take n items) \<and>
           (\<forall>res. fst (get_ai_video out p w) = Inr res \<longrightarrow> n = length items)"
proof -
  have it: "iter (JArray items) = Inr items" by simp
  note whole = get_ai_video_eq [OF assms it]
  from assms(1) have "wa = w\<lparr>calls := calls w @ [ChatCompletionsCreate (script_kwargs p)]\<rparr>"
    by (simp add: get_script_eq)
  then have va: "voices_requested (calls wa) = voices_requested (calls w)"
    by (simp add: voices_requested_def)
  obtain r wb where loop: "get_ai_video_loop out items [] wa = (r, wb)"
    by fastforce
  from ai_loop_voices [of items out "[]" wa] loop va obtain n where n: "n \<le> length items"
    and v: "voices_requested (calls wb) = voices_requested (calls w) @ map voice_of (take n items)"
    and ok: "\<forall>d. r = Inr d \<longrightarrow> n = length items"
    by auto
  show ?thesis
  proof (cases r)
    case (Inl e)
    with whole loop have "get_ai_video out p w = (Inl e, wb)" by simp
    with n v show ?thesis by auto
  next
    case (Inr data_list)
    with whole loop have g: "get_ai_video out p w = get_final_video out data_list wb"
      by simp
    from ok Inr have "n = length items" by simp
    with g v get_final_video_voices [of out data_list wb] show ?thesis
      by auto
  qed
qed

theorem voice_ids_are_sent_as_written_witness:
  "get_script (studio sahara_reply [''ab'', ''cd'']) ''Sahara'' empty_world =
     (Inr (JObject [(''script'', JArray sahara_items)]),
      \<lparr>calls = [ChatCompletionsCreate (script_kwargs ''Sahara'')], files = Map.empty\<rparr>) \<and>
   getitem (JObject [(''script'', JArray sahara_items)]) ''script'' = Inr (JArray sahara_items) \<and>
   voices_requested
     (calls (snd (get_ai_video (studio sahara_reply [''ab'', ''cd'']) ''Sahara'' empty_world))) =
     [JString ''en-UK-gabriel'', JString ''en-UK-gabriel'']"
proof -
  have g: "getitem (JObject [(''script'', JArray sahara_items)]) ''script'' = Inr (JArray sahara_items)"
    by simp
  have ok: "fst (get_ai_video (studio sahara_reply [''ab'', ''cd'']) ''Sahara'' empty_world) =
      Inr \<lparr>path = ''output_video.mp4'', media_type = ''video/mp4''\<rparr>"
    by (simp only: sahara_whole_run fst_conv)
  from voice_ids_are_sent_as_written [OF sahara_script_run g, of "[''ab'', ''cd'']"] ok
  have "voices_requested
      (calls (snd (get_ai_video (studio sahara_reply [''ab'', ''cd'']) ''Sahara'' empty_world))) =
      voices_requested (calls empty_world) @ map voice_of (take (length sahara_items) sahara_items)"
    by auto
  also have "\<dots> = [JString ''en-UK-gabriel'', JString ''en-UK-gabriel'']"
    by (simp add: empty_world_def voices_requested_def voice_of_def sahara_items_def)
  finally show ?thesis
    using sahara_script_run [of "[''ab'', ''cd'']"] g by (intro conjI)
qed

text \<open>
  C4 as stated fails: when the language model names two voices, both are sent to Murf
  and the video is made.
\<close>

theorem two_voices_counterexample:
  "fst (get_ai_video (studio mixed_reply [''ab'', ''cd'']) ''Sahara'' empty_world) =
     Inr \<lparr>path = ''output_video.mp4'', media_type = ''video/mp4''\<rparr> \<and>
   voices_requested
     (calls (snd (get_ai_video (studio mixed_reply [''ab'', ''cd'']) ''Sahara'' empty_world))) =
     [JString ''en-UK-gabriel'', JString ''en-US-miles'']"
  by (simp add: pipeline_defs studio_defs voices_requested_def murf_url_def murf_headers_def
      murf_payload_def)

subsection \<open>Failures\<close>

text \<open>
  C5 (as amended). When the body of the loop fails for the item at index \<open>i\<close> (its
  image call or its voice call raises \<open>e\<close>, or the item lacks a key) after the items
  before it have succeeded, \<open>get_ai_video\<close> ends with that very error \<open>e\<close>, to which no
  index is attached. The items before \<open>i\<close> have been requested in order, at most the
  two requests of item \<open>i\<close> follow and nothing later is requested or downloaded, and no
  file is written: no video is returned and no item is skipped.
\<close>

theorem failed_item_aborts_run:
  assumes "get_script out p w = (Inr script, wa)"
    and "getitem script ''script'' = Inr (JArray items)"
    and "i < length items"
    and "\<forall>j < i. \<exists>d. pair_at out (length (calls wa) + 2 * j) (items ! j) = Inr d"
    and "pair_at out (length (calls wa) + 2 * i) (items ! i) = Inl e"
  shows "\<exists>w' cs. get_ai_video out p w = (Inl e, w') \<and>
           files w' = files w \<and>
           calls w' = calls wa @ concat (map (requests_for out) (take i items)) @ cs \<and>
           length cs \<le> 2"
proof -
  have it: "iter (JArray items) = Inr items" by simp
  note whole = get_ai_video_eq [OF assms(1,2) it]
  from assms(1) have "wa = w\<lparr>calls := calls w @ [ChatCompletionsCreate (script_kwargs p)]\<rparr>"
    by (simp add: get_script_eq)
  then have fa: "files wa = files w" by simp
  from ai_loop_fails_at [OF assms(3,4,5), of "[]"] obtain w' cs where
    loop: "get_ai_video_loop out items [] wa = (Inl e, w')"
    and cs: "calls w' = calls wa @ concat (map (requests_for out) (take i items)) @ cs"
    and len: "length cs \<le> 2"
    by blast
  from ai_loop_files [of out items "[]" wa] loop fa have "files w' = files w"
    by simp
  moreover from whole loop have "get_ai_video out p w = (Inl e, w')"
    by simp
  ultimately show ?thesis
    using cs len by blast
qed

lemma refusing_script_run:
  "get_script (refusing t0) ''Sahara'' empty_world =
     (Inr (JObject [(''script'', JArray sahara_items)]),
      \<lparr>calls = [ChatCompletionsCreate (script_kwargs ''Sahara'')], files = Map.empty\<rparr>)"
  by (simp add: pipeline_defs studio_defs)

theorem failed_item_aborts_run_witness:
  "get_script (refusing 3) ''Sahara'' empty_world =
     (Inr (JObject [(''script'', JArray sahara_items)]),
      \<lparr>calls = [ChatCompletionsCreate (script_kwargs ''Sahara'')], files = Map.empty\<rparr>) \<and>
   getitem (JObject [(''script'', JArray sahara_items)]) ''script'' = Inr (JArray sahara_items) \<and>
   (1::nat) < length sahara_items \<and>
   pair_at (refusing 3) 1 (sahara_items ! 0) = Inr (sahara_pairs ! 0) \<and>
   pair_at (refusing 3) 3 (sahara_items ! 1) = Inl (Raised ''RateLimitError'') \<and>
   fst (get_ai_video (refusing 3) ''Sahara'' empty_world) = Inl (Raised ''RateLimitError'') \<and>
   files (snd (get_ai_video (refusing 3) ''Sahara'' empty_world)) = Map.empty"
proof -
  let ?wa = "\<lparr>calls = [ChatCompletionsCreate (script_kwargs ''Sahara'')], files = Map.empty\<rparr>"
  have g: "getitem (JObject [(''script'', JArray sahara_items)]) ''script'' = Inr (JArray sahara_items)"
    by simp
  have i: "(1::nat) < length sahara_items"
    by (simp add: sahara_items_def)
  have p0: "pair_at (refusing 3) 1 (sahara_items ! 0) = Inr (sahara_pairs ! 0)"
    by (simp add: pair_at_def pipeline_defs studio_defs sahara_pairs_def)
  have p1: "pair_at (refusing 3) 3 (sahara_items ! 1) = Inl (Raised ''RateLimitError'')"
    by (simp add: pair_at_def pipeline_defs studio_defs)
  have before: "\<forall>j < 1. \<exists>d. pair_at (refusing 3) (length (calls ?wa) + 2 * j) (sahara_items ! j) = Inr d"
    using p0 by simp
  have t: "length (calls ?wa) + 2 * 1 = (3::nat)"
    by simp
  have at: "pair_at (refusing 3) (length (calls ?wa) + 2 * 1) (sahara_items ! 1) =
      Inl (Raised ''RateLimitError'')"
    unfolding t by (rule p1)
  from failed_item_aborts_run [OF refusing_script_run g i before at]
  obtain w' where "get_ai_video (refusing 3) ''Sahara'' empty_world = (Inl (Raised ''RateLimitError''), w')"
    and "files w' = files empty_world"
    by blast
  then have "fst (get_ai_video (refusing 3) ''Sahara'' empty_world) = Inl (Raised ''RateLimitError'')"
    and "files (snd (get_ai_video (refusing 3) ''Sahara'' empty_world)) = Map.empty"
    by (simp_all add: empty_world_def)
  with refusing_script_run [of 3] g i p0 p1 show ?thesis
    by (intro conjI)
qed

text \<open>
  C5 as stated fails: a run whose image call fails for the item at index 0 and a run
  whose image call fails for the item at index 1 end with the same error, so the error
  does not tell the index.
\<close>

theorem error_has_no_index_counterexample:
  "pair_at (refusing 1) 1 (sahara_items ! 0) = Inl (Raised ''RateLimitError'') \<and>
   fst (get_ai_video (refusing 1) ''Sahara'' empty_world) = Inl (Raised ''RateLimitError'') \<and>
   pair_at (refusing 3) 1 (sahara_items ! 0) = Inr (sahara_pairs ! 0) \<and>
   pair_at (refusing 3) 3 (sahara_items ! 1) = Inl (Raised ''RateLimitError'') \<and>
   fst (get_ai_video (refusing 3) ''Sahara'' empty_world) = Inl (Raised ''RateLimitError'')"
  by (simp add: pair_at_def pipeline_defs studio_defs sahara_pairs_def)

text \<open>
  C6 (as amended). \<open>get_script\<close> makes one completion call and never a second one,
  touches no file, and returns what \<open>json.loads\<close> gives for the content of the first
  choice: a content that \<open>json.loads\<close> refuses is a fatal error, any JSON value is
  returned as it is, with no check that it holds a script array. A value without the
  key \<open>script\<close> is refused only by \<open>get_ai_video\<close>, whose subscript raises before any
  image or voice call.
\<close>

theorem get_script_checks_json_only:
  "calls (snd (get_script out p w)) = calls w @ [ChatCompletionsCreate (script_kwargs p)] \<and>
   files (snd (get_script out p w)) = files w \<and>
   (\<forall>v. fst (get_script out p w) = Inr v \<longrightarrow> (\<exists>str. json_loads out str = Inr v)) \<and>
   (\<forall>str others. chat_completions_create out (length (calls w)) (script_kwargs p) =
        Inr (Some str # others) \<longrightarrow>
      fst (get_script out p w) = json_loads out str) \<and>
   (\<forall>script e. fst (get_script out p w) = Inr script \<and> getitem script ''script'' = Inl e \<longrightarrow>
      get_ai_video out p w = (Inl e, snd (get_script out p w)))"
proof -
  have a: "calls (snd (get_script out p w)) = calls w @ [ChatCompletionsCreate (script_kwargs p)]"
    and b: "files (snd (get_script out p w)) = files w"
    by (simp_all add: get_script_eq)
  have c: "\<forall>v. fst (get_script out p w) = Inr v \<longrightarrow> (\<exists>str. json_loads out str = Inr v)"
    by (auto simp: get_script_eq first_def loads_def split: sum.splits list.splits option.splits)
  have d: "\<forall>str others. chat_completions_create out (length (calls w)) (script_kwargs p) =
        Inr (Some str # others) \<longrightarrow>
      fst (get_script out p w) = json_loads out str"
    by (simp add: get_script_eq first_def loads_def)
  have e: "\<forall>script e. fst (get_script out p w) = Inr script \<and> getitem script ''script'' = Inl e \<longrightarrow>
      get_ai_video out p w = (Inl e, snd (get_script out p w))"
    by (auto simp: get_ai_video_def and_then_def lift_def split: sum.splits prod.splits)
  from a b c d e show ?thesis by (intro conjI)
qed

theorem get_script_checks_json_only_witness:
  "fst (get_script (studio ''not json'' []) ''Sahara'' empty_world) = Inl (Raised ''JSONDecodeError'') \<and>
   fst (get_script (studio foo_reply []) ''Sahara'' empty_world) = Inr (JObject [(''foo'', JNumber 1)]) \<and>
   getitem (JObject [(''foo'', JNumber 1)]) ''script'' = Inl (KeyError ''script'') \<and>
   get_ai_video (studio foo_reply []) ''Sahara'' empty_world =
     (Inl (KeyError ''script''),
      \<lparr>calls = [ChatCompletionsCreate (script_kwargs ''Sahara'')], files = Map.empty\<rparr>)"
proof -
  have bad: "chat_completions_create (studio ''not json'' []) (length (calls empty_world))
      (script_kwargs ''Sahara'') = Inr (Some ''not json'' # [])"
    by (simp add: studio_def)
  have foo: "chat_completions_create (studio foo_reply []) (length (calls empty_world))
      (script_kwargs ''Sahara'') = Inr (Some foo_reply # [])"
    by (simp add: studio_def)
  note t1 = get_script_checks_json_only [of "studio ''not json'' []" "''Sahara''" empty_world]
  note t2 = get_script_checks_json_only [of "studio foo_reply []" "''Sahara''" empty_world]
  from t1 bad
  have "fst (get_script (studio ''not json'' []) ''Sahara'' empty_world) =
      json_loads (studio ''not json'' []) ''not json''"
    by blast
  then have r1: "fst (get_script (studio ''not json'' []) ''Sahara'' empty_world) =
      Inl (Raised ''JSONDecodeError'')"
    by (simp add: studio_defs)
  from t2 foo
  have "fst (get_script (studio foo_reply []) ''Sahara'' empty_world) =
      json_loads (studio foo_reply []) foo_reply"
    by blast
  then have r2: "fst (get_script (studio foo_reply []) ''Sahara'' empty_world) =
      Inr (JObject [(''foo'', JNumber 1)])"
    by (simp add: studio_defs)
  have k: "getitem (JObject [(''foo'', JNumber 1)]) ''script'' = Inl (KeyError ''script'')"
    by simp
  from t2 r2 k
  have "get_ai_video (studio foo_reply []) ''Sahara'' empty_world =
      (Inl (KeyError ''script''), snd (get_script (studio foo_reply []) ''Sahara'' empty_world))"
    by blast
  moreover have "snd (get_script (studio foo_reply []) ''Sahara'' empty_world) =
      \<lparr>calls = [ChatCompletionsCreate (script_kwargs ''Sahara'')], files = Map.empty\<rparr>"
    by (simp add: get_script_eq empty_world_def)
  ultimately show ?thesis
    using r1 r2 k by simp
qed

text \<open>
  C6 as stated fails: a reply that is well-formed JSON without any script array is
  returned by \<open>get_script\<close> as a result, not as an error.
\<close>

theorem reply_without_script_counterexample:
  "get_script (studio foo_reply []) ''Sahara'' empty_world =
     (Inr (JObject [(''foo'', JNumber 1)]),
      \<lparr>calls = [ChatCompletionsCreate (script_kwargs ''Sahara'')], files = Map.empty\<rparr>)"
  by (simp add: pipeline_defs studio_defs)

subsection \<open>Scratch files\<close>

lemma get_ai_video_keeps_files:
  "dom (files w) \<subseteq> dom (files (snd (get_ai_video out p w)))"
proof -
  obtain r1 wa where s: "get_script out p w = (r1, wa)"
    by fastforce
  then have fa: "files wa = files w"
    by (auto simp: get_script_eq)
  show ?thesis
  proof (cases "case r1 of Inl e \<Rightarrow> Inl e
                 | Inr script \<Rightarrow> (case getitem script ''script'' of Inl e \<Rightarrow> Inl e
                                  | Inr script_arr \<Rightarrow> iter script_arr)")
    case (Inl e)
    with s have "snd (get_ai_video out p w) = wa"
      by (auto simp: get_ai_video_def and_then_def lift_def split: sum.splits)
    with fa show ?thesis by simp
  next
    case (Inr items)
    obtain r2 wb where l: "get_ai_video_loop out items [] wa = (r2, wb)"
      by fastforce
    from ai_loop_files [of out items "[]" wa] l fa have fb: "files wb = files w"
      by simp
    show ?thesis
    proof (cases r2)
      case (Inl e)
      with s Inr l have "snd (get_ai_video out p w) = wb"
        by (auto simp: get_ai_video_def and_then_def lift_def split: sum.splits)
      with fb show ?thesis by simp
    next
      case (Inr data_list)
      with s \<open>(case r1 of Inl e \<Rightarrow> Inl e | Inr script \<Rightarrow>
          (case getitem script ''script'' of Inl e \<Rightarrow> Inl e | Inr script_arr \<Rightarrow> iter script_arr)) =
          Inr items\<close> l
      have "snd (get_ai_video out p w) = snd (get_final_video out data_list wb)"
        by (auto simp: get_ai_video_def and_then_def lift_def split: sum.splits)
      with fb get_final_video_keeps_files [of wb out data_list] show ?thesis
        by simp
    qed
  qed
qed

text \<open>
  C7 (as amended). The program deletes nothing: every file that exists before a call
  of \<open>get_ai_video\<close> or of \<open>get_final_video\<close> still exists when the call ends,
  whether it returns or raises. After a call of \<open>get_final_video\<close> that returns, the
  files are the earlier ones, the image and the audio file of each of the \<open>k\<close> media
  pairs, and the output video: the scratch files stay.
\<close>

theorem scratch_files_are_kept:
  "dom (files w) \<subseteq> dom (files (snd (get_ai_video out p w))) \<and>
   dom (files w) \<subseteq> dom (files (snd (get_final_video out data_list w))) \<and>
   (\<forall>res w'. get_final_video out data_list w = (Inr res, w') \<longrightarrow>
      dom (files w') = dom (files w) \<union> scratch_names (length data_list) \<union> {output_path})"
proof -
  have "\<forall>res w'. get_final_video out data_list w = (Inr res, w') \<longrightarrow>
      dom (files w') = dom (files w) \<union> scratch_names (length data_list) \<union> {output_path}"
    using get_final_video_ok by blast
  with get_ai_video_keeps_files [of w out p] get_final_video_keeps_files [of w out data_list]
  show ?thesis by (intro conjI)
qed

theorem scratch_files_are_kept_witness:
  "get_final_video (studio sahara_reply [''ab'', ''cd'']) sahara_pairs empty_world =
     (Inr \<lparr>path = ''output_video.mp4'', media_type = ''video/mp4''\<rparr>,
      \<lparr>calls = [] @ concat (map downloads_for sahara_pairs),
       files = [''image_0.png'' \<mapsto> Bytes ''abcd'', ''audio_0.wav'' \<mapsto> Bytes ''abcd'',
                ''image_1.png'' \<mapsto> Bytes ''abcd'', ''audio_1.wav'' \<mapsto> Bytes ''abcd'',
                ''output_video.mp4'' \<mapsto> sahara_movie]\<rparr>) \<and>
   dom [''image_0.png'' \<mapsto> Bytes ''abcd'', ''audio_0.wav'' \<mapsto> Bytes ''abcd'',
        ''image_1.png'' \<mapsto> Bytes ''abcd'', ''audio_1.wav'' \<mapsto> Bytes ''abcd'',
        ''output_video.mp4'' \<mapsto> sahara_movie] =
     scratch_names 2 \<union> {output_path}"
proof -
  have run: "get_final_video (studio sahara_reply [''ab'', ''cd'']) sahara_pairs empty_world =
     (Inr \<lparr>path = ''output_video.mp4'', media_type = ''video/mp4''\<rparr>,
      \<lparr>calls = [] @ concat (map downloads_for sahara_pairs),
       files = [''image_0.png'' \<mapsto> Bytes ''abcd'', ''audio_0.wav'' \<mapsto> Bytes ''abcd'',
                ''image_1.png'' \<mapsto> Bytes ''abcd'', ''audio_1.wav'' \<mapsto> Bytes ''abcd'',
                ''output_video.mp4'' \<mapsto> sahara_movie]\<rparr>)"
    unfolding empty_world_def by (rule sahara_video_run)
  note kept = scratch_files_are_kept [of empty_world "studio sahara_reply [''ab'', ''cd'']"
      "''Sahara''" sahara_pairs]
  note eq = kept [THEN conjunct2, THEN conjunct2, rule_format, OF run]
  have "length sahara_pairs = 2"
    by (simp add: sahara_pairs_def)
  with eq have "dom [''image_0.png'' \<mapsto> Bytes ''abcd'', ''audio_0.wav'' \<mapsto> Bytes ''abcd'',
        ''image_1.png'' \<mapsto> Bytes ''abcd'', ''audio_1.wav'' \<mapsto> Bytes ''abcd'',
        ''output_video.mp4'' \<mapsto> sahara_movie] =
     scratch_names 2 \<union> {output_path}"
    by (simp add: empty_world_def)
  with run show ?thesis by (intro conjI)
qed

text \<open>
  C7 as stated fails: after a run that has returned its video, the image and the
  audio file downloaded for the first sentence are still there.
\<close>

theorem scratch_files_left_counterexample:
  "fst (get_ai_video (studio sahara_reply [''ab'', ''cd'']) ''Sahara'' empty_world) =
     Inr \<lparr>path = ''output_video.mp4'', media_type = ''video/mp4''\<rparr> \<and>
   files (snd (get_ai_video (studio sahara_reply [''ab'', ''cd'']) ''Sahara'' empty_world))
     ''image_0.png'' = Some (Bytes ''abcd'') \<and>
   files (snd (get_ai_video (studio sahara_reply [''ab'', ''cd'']) ''Sahara'' empty_world))
     ''audio_0.wav'' = Some (Bytes ''abcd'')"
  by (simp add: sahara_whole_run)

text \<open>
  C9 (as amended). Within one run the scratch names are distinct: the image names of
  two different indices differ, so do the audio names, no image name is an audio name,
  and none of them is the name of the output. The names are fixed by the index alone:
  whatever the prompt, the services and the files already there, a run over \<open>k\<close>
  media pairs that returns has written exactly \<open>image_0.png\<close> to
  \<open>image_(k-1).png\<close>, \<open>audio_0.wav\<close> to \<open>audio_(k-1).wav\<close> and \<open>output_video.mp4\<close>,
  so two runs use the same names.
\<close>

theorem scratch_names_distinct_in_a_run:
  "(image_name i = image_name j \<longleftrightarrow> i = j) \<and>
   (audio_name i = audio_name j \<longleftrightarrow> i = j) \<and>
   image_name i \<noteq> audio_name j \<and>
   image_name i \<noteq> output_path \<and>
   audio_name i \<noteq> output_path \<and>
   (\<forall>out data_list w res w'. get_final_video out data_list w = (Inr res, w') \<longrightarrow>
      dom (files w') - dom (files w) \<subseteq> scratch_names (length data_list) \<union> {output_path} \<and>
      scratch_names (length data_list) \<union> {output_path} \<subseteq> dom (files w'))"
proof -
  have "\<forall>out data_list w res w'. get_final_video out data_list w = (Inr res, w') \<longrightarrow>
      dom (files w') - dom (files w) \<subseteq> scratch_names (length data_list) \<union> {output_path} \<and>
      scratch_names (length data_list) \<union> {output_path} \<subseteq> dom (files w')"
  proof (intro allI impI)
    fix out data_list w res w'
    assume "get_final_video out data_list w = (Inr res, w')"
    from get_final_video_ok [OF this]
    have "dom (files w') = dom (files w) \<union> scratch_names (length data_list) \<union> {output_path}"
      by blast
    then show "dom (files w') - dom (files w) \<subseteq> scratch_names (length data_list) \<union> {output_path} \<and>
      scratch_names (length data_list) \<union> {output_path} \<subseteq> dom (files w')"
      by auto
  qed
  with image_name_inj [of i j] audio_name_inj [of i j] image_name_not_audio_name [of i j]
    image_name_not_output [of i] audio_name_not_output [of i]
  show ?thesis by (intro conjI)
qed

theorem scratch_names_distinct_in_a_run_witness:
  "image_name 0 \<noteq> image_name 1 \<and>
   audio_name 0 \<noteq> audio_name 1 \<and>
   image_name 0 = ''image_0.png'' \<and>
   audio_name 1 = ''audio_1.wav'' \<and>
   scratch_names (length sahara_pairs) \<union> {output_path} \<subseteq>
     dom (files (snd (get_final_video (studio sahara_reply [''ab'', ''cd'']) sahara_pairs empty_world)))"
proof -
  have run: "get_final_video (studio sahara_reply [''ab'', ''cd'']) sahara_pairs empty_world =
     (Inr \<lparr>path = ''output_video.mp4'', media_type = ''video/mp4''\<rparr>,
      snd (get_final_video (studio sahara_reply [''ab'', ''cd'']) sahara_pairs empty_world))"
    unfolding empty_world_def by (simp only: sahara_video_run snd_conv)
  note names = scratch_names_distinct_in_a_run [of 0 1]
  have a: "image_name 0 \<noteq> image_name 1"
    using names [THEN conjunct1] by simp
  have b: "audio_name 0 \<noteq> audio_name 1"
    using names [THEN conjunct2, THEN conjunct1] by simp
  note files = names [THEN conjunct2, THEN conjunct2, THEN conjunct2, THEN conjunct2,
      THEN conjunct2, rule_format, OF run, THEN conjunct2]
  have c: "image_name 0 = ''image_0.png''" and d: "audio_name 1 = ''audio_1.wav''"
    by (simp_all add: image_name_def audio_name_def str_nat.simps digit_char_def)
  from a b c d files show ?thesis by (intro conjI)
qed

text \<open>
  C9 as stated fails: a second run, started where the first one ended, stores its
  first image under the name the first run used, and so replaces that file; the same
  happens to the output video.
\<close>

theorem runs_share_names_counterexample:
  "files (snd (get_ai_video (studio sahara_reply [''ab'', ''cd'']) ''Sahara'' empty_world))
     ''image_0.png'' = Some (Bytes ''abcd'') \<and>
   fst (get_ai_video (studio mixed_reply [''wxyz'']) ''Dunes''
          (snd (get_ai_video (studio sahara_reply [''ab'', ''cd'']) ''Sahara'' empty_world))) =
     Inr \<lparr>path = ''output_video.mp4'', media_type = ''video/mp4''\<rparr> \<and>
   files (snd (get_ai_video (studio mixed_reply [''wxyz'']) ''Dunes''
          (snd (get_ai_video (studio sahara_reply [''ab'', ''cd'']) ''Sahara'' empty_world))))
     ''image_0.png'' = Some (Bytes ''wxyz'')"
  by (simp add: sahara_whole_run)
    (simp add: pipeline_defs studio_defs sahara_pairs_def requests_for_def downloads_for_def)

end
